theory Spec2Isabelle
  imports Complex_Main "HOL-Library.Char_ord" "HOL-Library.List_Lexorder"
begin

section \<open>Python values used by the app\<close>

text \<open>
  The app is one Streamlit script, \<^verbatim>\<open>app.py\<close>. A Python \<^verbatim>\<open>str\<close> is modelled as a
  \<^typ>\<open>string\<close> whose characters are the code points below 256; \<^verbatim>\<open><\<close> on \<^typ>\<open>string\<close>
  is then Python's comparison of strings (lexicographic by code point). A raised exception
  is the left summand of a sum, carrying the exception's text.
\<close>

type_synonym exn = string

fun map_exn :: "('a \<Rightarrow> exn + 'b) \<Rightarrow> 'a list \<Rightarrow> exn + 'b list" where
  "map_exn f [] = Inr []"
| "map_exn f (x # xs) =
     (case f x of
        Inl e \<Rightarrow> Inl e
      | Inr y \<Rightarrow> (case map_exn f xs of Inl e \<Rightarrow> Inl e | Inr ys \<Rightarrow> Inr (y # ys)))"

definition isspace :: "char \<Rightarrow> bool" where
  \<comment> \<open>\<^verbatim>\<open>str.isspace\<close> on the code points below 256\<close>
  "isspace c = ((of_char c :: nat) \<in> {9, 10, 11, 12, 13, 28, 29, 30, 31, 32, 133, 160})"

definition strip :: "string \<Rightarrow> string" where
  \<comment> \<open>\<^verbatim>\<open>str.strip()\<close>\<close>
  "strip s = rev (dropWhile isspace (rev (dropWhile isspace s)))"

definition path_join :: "string \<Rightarrow> string \<Rightarrow> string" where
  \<comment> \<open>\<^verbatim>\<open>os.path.join(a, b)\<close> on POSIX\<close>
  "path_join a b =
     (if b \<noteq> [] \<and> hd b = CHR ''/'' then b
      else if a = [] \<or> last a = CHR ''/'' then a @ b
      else a @ ''/'' @ b)"

definition digit_char :: "nat \<Rightarrow> char" where
  "digit_char d = ''0123456789'' ! d"

fun str_nat :: "nat \<Rightarrow> string" where
  "str_nat n = (if n < 10 then [digit_char n] else str_nat (n div 10) @ [digit_char (n mod 10)])"

declare str_nat.simps [simp del]

subsection \<open>Floating point\<close>

text \<open>
  A \<^verbatim>\<open>float64\<close> is a finite double, given by its exact value, or \<^verbatim>\<open>nan\<close>. Every
  arithmetic operation returns the double nearest to the exact result, a tie going to the
  even significand: \<open>fl\<close> scales its argument into the range of the 53-bit significands,
  rounds it there and scales it back. The exponent is not bounded; the values of the app
  are far from overflow and underflow.
\<close>

datatype float64 = Finite rat | Nan

definition round_half_even :: "rat \<Rightarrow> int" where
  \<comment> \<open>the integer nearest to \<open>x\<close>, a tie going to the even neighbour\<close>
  "round_half_even x =
     (let f = \<lfloor>x\<rfloor>; d = x - of_int f
      in if d < 1 / 2 then f else if 1 / 2 < d then f + 1 else if even f then f else f + 1)"

function doublings :: "rat \<Rightarrow> nat \<Rightarrow> nat" where
  "doublings x n = (if 0 < x \<and> x * 2 ^ n < 2 ^ 52 then doublings x (Suc n) else n)"
  by pat_completeness auto
termination
proof (relation "measure (\<lambda>(x, n). nat \<lceil>2 ^ 52 / x\<rceil> - n)")
  show "wf (measure (\<lambda>(x, n). nat \<lceil>2 ^ 52 / x\<rceil> - n))" by simp
next
  fix x :: rat and n :: nat
  assume a: "0 < x \<and> x * 2 ^ n < 2 ^ 52"
  have "of_nat n \<le> (2::rat) ^ n" using of_nat_less_two_power[of n] by (simp add: less_imp_le)
  then have le: "x * of_nat n \<le> x * 2 ^ n" using a by (simp add: mult_left_mono)
  have lt: "x * 2 ^ n < 2 ^ 52" and pos: "0 < x" using a by blast+
  have "x * of_nat n < 2 ^ 52" by (rule le_less_trans[OF le lt])
  then have "of_nat n * x < 2 ^ 52" by (simp only: mult.commute)
  then have "of_nat n < 2 ^ 52 / x" by (simp only: pos_less_divide_eq[OF pos])
  also have "\<dots> \<le> of_int \<lceil>2 ^ 52 / x\<rceil>" by (rule le_of_int_ceiling)
  finally have "int n < \<lceil>2 ^ 52 / x\<rceil>" by simp
  then have "n < nat \<lceil>2 ^ 52 / x\<rceil>" by simp
  then show "((x, Suc n), (x, n)) \<in> measure (\<lambda>(x, n). nat \<lceil>2 ^ 52 / x\<rceil> - n)" by simp
qed

function halvings :: "rat \<Rightarrow> nat \<Rightarrow> nat" where
  "halvings x n = (if 2 ^ 53 \<le> x / 2 ^ n then halvings x (Suc n) else n)"
  by pat_completeness auto
termination
proof (relation "measure (\<lambda>(x, n). nat \<lceil>x\<rceil> - n)")
  show "wf (measure (\<lambda>(x, n). nat \<lceil>x\<rceil> - n))" by simp
next
  fix x :: rat and n :: nat
  assume a: "2 ^ 53 \<le> x / 2 ^ n"
  have "of_nat n < (2::rat) ^ n" by (rule of_nat_less_two_power)
  also have "\<dots> \<le> 2 ^ 53 * 2 ^ n" by simp
  also have "\<dots> \<le> x" using a by (simp add: pos_le_divide_eq)
  also have "\<dots> \<le> of_int \<lceil>x\<rceil>" by (rule le_of_int_ceiling)
  finally have "int n < \<lceil>x\<rceil>" by simp
  then have "n < nat \<lceil>x\<rceil>" by simp
  then show "((x, Suc n), (x, n)) \<in> measure (\<lambda>(x, n). nat \<lceil>x\<rceil> - n)" by simp
qed

declare doublings.simps [simp del] halvings.simps [simp del]

definition fl_pos :: "rat \<Rightarrow> rat" where
  "fl_pos x =
     (if x < 2 ^ 52 then
        (let n = doublings x 0 in of_int (round_half_even (x * 2 ^ n)) / 2 ^ n)
      else
        (let n = halvings x 0 in of_int (round_half_even (x / 2 ^ n)) * 2 ^ n))"

definition fl :: "rat \<Rightarrow> rat" where
  "fl x = (if x = 0 then 0 else if 0 < x then fl_pos x else - fl_pos (- x))"

fun float_mul :: "float64 \<Rightarrow> rat \<Rightarrow> float64" where
  \<comment> \<open>\<^verbatim>\<open>a * b\<close> for a float \<^verbatim>\<open>a\<close> and an integer \<^verbatim>\<open>b\<close> that is itself a double\<close>
  "float_mul (Finite a) b = Finite (fl (a * b))"
| "float_mul Nan b = Nan"

text \<open>
  The accuracy of a row is a \<^verbatim>\<open>numpy.float64\<close> that \<^verbatim>\<open>round(_, 2)\<close> produced. The built-in
  \<^verbatim>\<open>round\<close> calls the \<^verbatim>\<open>__round__\<close> of numpy, which computes
  \<^verbatim>\<open>rint(x * 100) / 100\<close>: the double nearest to \<open>k / 100\<close> for the integer
  \<open>k = rint(x * 100)\<close>. It is represented by \<open>k\<close>, the number of hundredths; \<^verbatim>\<open>nan\<close>
  stays \<^verbatim>\<open>nan\<close>. \<^verbatim>\<open>str\<close> of such a float is its shortest decimal: the integer part, a
  point, and one or two decimals (\<^verbatim>\<open>100.0\<close>, \<^verbatim>\<open>33.33\<close>, \<^verbatim>\<open>12.5\<close>).
\<close>

datatype percent = Percent nat | Missing

fun round2 :: "float64 \<Rightarrow> percent" where
  \<comment> \<open>\<^verbatim>\<open>round(x, 2)\<close> of a non-negative \<^verbatim>\<open>numpy.float64\<close>\<close>
  "round2 (Finite x) = Percent (nat (round_half_even (fl (x * 100))))"
| "round2 Nan = Missing"

declare float_mul.simps [simp del] round2.simps [simp del]

definition fraction_digits :: "nat \<Rightarrow> string" where
  "fraction_digits k =
     (if k mod 10 = 0 then [digit_char (k mod 100 div 10)]
      else [digit_char (k mod 100 div 10), digit_char (k mod 10)])"

definition str_float :: "nat \<Rightarrow> string" where
  "str_float k = str_nat (k div 100) @ ''.'' @ fraction_digits k"

fun str_percent :: "percent \<Rightarrow> string" where
  \<comment> \<open>\<^verbatim>\<open>str\<close> of the accuracy\<close>
  "str_percent (Percent k) = str_float k"
| "str_percent Missing = ''nan''"

section \<open>Data model\<close>

subsection \<open>Leaderboard table\<close>

text \<open>
  A cell of a text column of the data frame is a string or the missing value. The frame
  has the three columns \<^verbatim>\<open>Username\<close>, \<^verbatim>\<open>Accuracy\<close>, \<^verbatim>\<open>Timestamp\<close>; a table is the list of
  its rows in index order.
\<close>

datatype cell = Str string | NaN

record row =
  Username :: cell
  Accuracy :: percent
  Timestamp :: cell

type_synonym table = "row list"

subsection \<open>Images, arrays, models\<close>

record image =
  img_width :: nat
  img_height :: nat
  img_pixels :: "nat list"

record ndarray =
  nd_shape :: "nat list"
  nd_data :: "rat list"

text \<open>A dimension of a Keras input shape is an integer or \<^verbatim>\<open>None\<close>.\<close>

type_synonym shape = "nat option list"

record model =
  input_shape :: "exn + shape"
  predict :: "ndarray \<Rightarrow> exn + rat list list"

subsection \<open>Collaborators and the world\<close>

text \<open>
  The libraries the script calls are parameters: the directory listing and the image decoder
  (\<^verbatim>\<open>os.listdir\<close>, \<^verbatim>\<open>Image.open(p).convert("RGB")\<close>), the resampling filter of PIL, the Keras
  loader, the clock and the CSV reader and writer of pandas.
\<close>

record env =
  listdir :: "string \<Rightarrow> exn + string list"
  image_open :: "string \<Rightarrow> exn + image"
  resample :: "image \<Rightarrow> nat \<times> nat \<Rightarrow> nat list"
  load_model :: "string \<Rightarrow> exn + model"
  now :: string
  read_csv :: "string \<Rightarrow> exn + table"
  to_csv :: "table \<Rightarrow> string"

text \<open>
  The world is what a run of the script can change: the content of \<^verbatim>\<open>leaderboard.csv\<close>
  (\<open>None\<close> while the file does not exist) and the temporary files, by name. Two counters
  record how often \<^verbatim>\<open>save_leaderboard\<close> and \<^verbatim>\<open>evaluate_model\<close> were called. File
  operations themselves do not fail in this model.
\<close>

record world =
  leaderboard_file :: "string option"
  temp_files :: "(nat \<times> string) list"
  saves :: nat
  evaluations :: nat

record submission =
  username :: string
  uploaded_file :: "string option"
  submit :: bool

datatype message =
    Warning_missing_file
  | Warning_missing_username
  | Error_concrete_dimensions
  | Error_unsupported_shape shape
  | Error_load exn
  | Error_evaluation exn
  | Success float64

section \<open>Configuration\<close>

definition TEST_IMAGE_DIR :: string where
  "TEST_IMAGE_DIR = ''test_images''"

definition CLASS_NAMES :: "string list" where
  "CLASS_NAMES = [''A'', ''B'', ''C'']"

section \<open>Test-set loader\<close>

fun load_files ::
  "env \<Rightarrow> string \<Rightarrow> nat \<Rightarrow> string list \<Rightarrow> image list \<times> nat list
     \<Rightarrow> exn + image list \<times> nat list" where
  "load_files e folder idx [] acc = Inr acc"
| "load_files e folder idx (fname # rest) (images, labels) =
     (case image_open e (path_join folder fname) of
        Inl err \<Rightarrow> Inl err
      | Inr img \<Rightarrow> load_files e folder idx rest (images @ [img], labels @ [idx]))"

fun load_classes ::
  "env \<Rightarrow> (nat \<times> string) list \<Rightarrow> image list \<times> nat list \<Rightarrow> exn + image list \<times> nat list" where
  "load_classes e [] acc = Inr acc"
| "load_classes e ((idx, cls) # rest) acc =
     (case listdir e (path_join TEST_IMAGE_DIR cls) of
        Inl err \<Rightarrow> Inl err
      | Inr names \<Rightarrow>
          (case load_files e (path_join TEST_IMAGE_DIR cls) idx (sort names) acc of
             Inl err \<Rightarrow> Inl err
           | Inr acc' \<Rightarrow> load_classes e rest acc'))"

definition load_raw_test_images :: "env \<Rightarrow> exn + image list \<times> nat list" where
  "load_raw_test_images e = load_classes e (enumerate 0 CLASS_NAMES) ([], [])"

section \<open>Leaderboard store\<close>

definition load_leaderboard :: "env \<Rightarrow> world \<Rightarrow> exn + table" where
  "load_leaderboard e w =
     (case leaderboard_file w of
        Some content \<Rightarrow> read_csv e content
      | None \<Rightarrow> Inr [])"

definition save_leaderboard :: "env \<Rightarrow> table \<Rightarrow> world \<Rightarrow> world" where
  "save_leaderboard e df w = w\<lparr>leaderboard_file := Some (to_csv e df), saves := Suc (saves w)\<rparr>"

section \<open>Model evaluator\<close>

definition resize :: "env \<Rightarrow> image \<Rightarrow> nat \<times> nat \<Rightarrow> exn + image" where
  \<comment> \<open>\<^verbatim>\<open>Image.resize(size)\<close>: PIL reads its argument as (width, height)\<close>
  "resize e img sz =
     (case sz of (w, h) \<Rightarrow>
        if w < 1 \<or> h < 1 then Inl ''height and width must be > 0''
        else Inr \<lparr>img_width = w, img_height = h, img_pixels = resample e img (w, h)\<rparr>)"

definition np_array :: "image \<Rightarrow> ndarray" where
  \<comment> \<open>\<^verbatim>\<open>np.array(img) / 255.0\<close>: an RGB image is an array of shape (height, width, 3)\<close>
  "np_array img =
     \<lparr>nd_shape = [img_height img, img_width img, 3],
      nd_data = map (\<lambda>v. of_nat v / 255) (img_pixels img)\<rparr>"

definition resized_imgs :: "env \<Rightarrow> image list \<Rightarrow> nat \<times> nat \<Rightarrow> exn + ndarray list" where
  "resized_imgs e pil_images input_size =
     map_exn (\<lambda>img. case resize e img input_size of
                      Inl err \<Rightarrow> Inl err
                    | Inr r \<Rightarrow> Inr (np_array r)) pil_images"

definition np_stack :: "ndarray list \<Rightarrow> exn + ndarray" where
  "np_stack arrays =
     (case arrays of
        [] \<Rightarrow> Inl ''need at least one array to stack''
      | a # rest \<Rightarrow>
          if \<forall>b \<in> set rest. nd_shape b = nd_shape a
          then Inr \<lparr>nd_shape = length arrays # nd_shape a,
                    nd_data = concat (map nd_data arrays)\<rparr>
          else Inl ''all input arrays must have the same shape'')"

fun argmax_loop :: "rat list \<Rightarrow> nat \<Rightarrow> nat \<Rightarrow> rat \<Rightarrow> nat" where
  "argmax_loop [] i best v = best"
| "argmax_loop (x # xs) i best v =
     (if v < x then argmax_loop xs (Suc i) i x else argmax_loop xs (Suc i) best v)"

definition argmax :: "rat list \<Rightarrow> exn + nat" where
  \<comment> \<open>\<^verbatim>\<open>np.argmax\<close> of one row: the first index of the maximum\<close>
  "argmax scores =
     (case scores of
        [] \<Rightarrow> Inl ''attempt to get argmax of an empty sequence''
      | x # xs \<Rightarrow> Inr (argmax_loop xs 1 0 x))"

definition np_equal :: "nat list \<Rightarrow> nat list \<Rightarrow> exn + bool list" where
  \<comment> \<open>\<^verbatim>\<open>y_pred == y\<close> for two vectors: element by element when the lengths agree; a
      vector of length 1 is broadcast against the other; other lengths do not go together\<close>
  "np_equal y_pred y =
     (if length y_pred = length y then Inr (map (\<lambda>(p, l). p = l) (zip y_pred y))
      else if length y_pred = 1 then Inr (map (\<lambda>l. hd y_pred = l) y)
      else if length y = 1 then Inr (map (\<lambda>p. p = hd y) y_pred)
      else Inl ''operands could not be broadcast together'')"

definition np_mean :: "bool list \<Rightarrow> float64" where
  \<comment> \<open>\<^verbatim>\<open>.mean()\<close> of a vector of truth values: the count of the true ones divided by the
      length, in floating point; \<^verbatim>\<open>nan\<close> for the empty vector\<close>
  "np_mean bs =
     (if bs = [] then Nan
      else Finite (fl (of_nat (length (filter (\<lambda>b. b) bs)) / of_nat (length bs))))"

definition evaluate_model ::
  "env \<Rightarrow> model \<Rightarrow> image list \<Rightarrow> nat list \<Rightarrow> nat \<times> nat \<Rightarrow> exn + float64" where
  "evaluate_model e m pil_images y input_size =
     (case resized_imgs e pil_images input_size of
        Inl err \<Rightarrow> Inl err
      | Inr imgs \<Rightarrow>
     (case np_stack imgs of
        Inl err \<Rightarrow> Inl err
      | Inr x \<Rightarrow>
     (case predict m x of
        Inl err \<Rightarrow> Inl err
      | Inr preds \<Rightarrow>
     (case map_exn argmax preds of
        Inl err \<Rightarrow> Inl err
      | Inr y_pred \<Rightarrow>
     (case np_equal y_pred y of
        Inl err \<Rightarrow> Inl err
      | Inr hits \<Rightarrow> Inr (np_mean hits))))))"

section \<open>Submission handler\<close>

subsection \<open>The scoped temporary file\<close>

text \<open>
  \<^verbatim>\<open>tempfile.NamedTemporaryFile(delete=True)\<close> creates a file under a name that no
  existing file has; leaving the \<^verbatim>\<open>with\<close> block deletes it, however the block is left.
\<close>

definition fresh_name :: "(nat \<times> string) list \<Rightarrow> nat" where
  "fresh_name files = Suc (fold max (map fst files) 0)"

definition write_temp :: "string \<Rightarrow> world \<Rightarrow> nat \<times> world" where
  "write_temp bytes w =
     (let name = fresh_name (temp_files w)
      in (name, w\<lparr>temp_files := (name, bytes) # temp_files w\<rparr>))"

definition read_temp :: "nat \<Rightarrow> world \<Rightarrow> string option" where
  "read_temp name w = map_of (temp_files w) name"

definition delete_temp :: "nat \<Rightarrow> world \<Rightarrow> world" where
  "delete_temp name w = w\<lparr>temp_files := filter (\<lambda>f. fst f \<noteq> name) (temp_files w)\<rparr>"

definition with_temp_file :: "string \<Rightarrow> (nat \<Rightarrow> world \<Rightarrow> 'a \<times> world) \<Rightarrow> world \<Rightarrow> 'a \<times> world" where
  "with_temp_file bytes body w =
     (case write_temp bytes w of (tmpf, w1) \<Rightarrow>
        (case body tmpf w1 of (r, w2) \<Rightarrow> (r, delete_temp tmpf w2)))"

subsection \<open>The handler\<close>

text \<open>
  The handler returns the in-memory leaderboard, the messages it showed
  (\<^verbatim>\<open>st.warning\<close>, \<^verbatim>\<open>st.error\<close>, \<^verbatim>\<open>st.success\<close>) and the world it leaves.
\<close>

definition record_result ::
  "env \<Rightarrow> submission \<Rightarrow> table \<Rightarrow> float64 \<Rightarrow> world \<Rightarrow> (table \<times> message list) \<times> world" where
  "record_result e sub leaderboard acc w =
     (let new_row = \<lparr>Username = Str (username sub),
                      Accuracy = round2 (float_mul acc 100),
                      Timestamp = Str (now e)\<rparr>;
          leaderboard' = leaderboard @ [new_row]
      in ((leaderboard', [Success acc]), save_leaderboard e leaderboard' w))"

definition evaluate_submission ::
  "env \<Rightarrow> submission \<Rightarrow> table \<Rightarrow> image list \<Rightarrow> nat list \<Rightarrow> model \<Rightarrow> world
     \<Rightarrow> (table \<times> message list) \<times> world" where
  "evaluate_submission e sub leaderboard raw_images y_test m w =
     (case input_shape m of
        Inl err \<Rightarrow> ((leaderboard, [Error_load err]), w)
      | Inr shp \<Rightarrow>
          if length shp = 4 \<and> last shp = Some 3 then
            (case (shp ! 1, shp ! 2) of
               (Some h, Some wd) \<Rightarrow>
                 (let w1 = w\<lparr>evaluations := Suc (evaluations w)\<rparr>
                  in case evaluate_model e m raw_images y_test (h, wd) of
                       Inl err \<Rightarrow> ((leaderboard, [Error_evaluation err]), w1)
                     | Inr acc \<Rightarrow> record_result e sub leaderboard acc w1)
             | _ \<Rightarrow> ((leaderboard, [Error_concrete_dimensions]), w))
          else ((leaderboard, [Error_unsupported_shape shp]), w))"

definition load_and_evaluate ::
  "env \<Rightarrow> submission \<Rightarrow> table \<Rightarrow> image list \<Rightarrow> nat list \<Rightarrow> nat \<Rightarrow> world
     \<Rightarrow> (table \<times> message list) \<times> world" where
  "load_and_evaluate e sub leaderboard raw_images y_test tmpf w =
     (case (case read_temp tmpf w of
              None \<Rightarrow> Inl ''No such file or directory''
            | Some bytes \<Rightarrow> load_model e bytes) of
        Inl err \<Rightarrow> ((leaderboard, [Error_load err]), w)
      | Inr m \<Rightarrow> evaluate_submission e sub leaderboard raw_images y_test m w)"

definition handle_submission ::
  "env \<Rightarrow> submission \<Rightarrow> table \<Rightarrow> image list \<Rightarrow> nat list \<Rightarrow> world
     \<Rightarrow> (table \<times> message list) \<times> world" where
  "handle_submission e sub leaderboard raw_images y_test w =
     (if submit sub \<and> uploaded_file sub \<noteq> None \<and> strip (username sub) \<noteq> [] then
        with_temp_file (the (uploaded_file sub))
          (load_and_evaluate e sub leaderboard raw_images y_test) w
      else if submit sub \<and> uploaded_file sub = None then
        ((leaderboard, [Warning_missing_file]), w)
      else if submit sub \<and> strip (username sub) = [] then
        ((leaderboard, [Warning_missing_username]), w)
      else ((leaderboard, []), w))"

subsection \<open>Leaderboard display\<close>

type_synonym display_row = "cell \<times> string \<times> cell"

definition leaderboard_display :: "table \<Rightarrow> display_row list" where
  \<comment> \<open>the copy whose \<^verbatim>\<open>Accuracy\<close> column is \<^verbatim>\<open>astype(str) + " %"\<close>\<close>
  "leaderboard_display leaderboard =
     map (\<lambda>r. (Username r, str_percent (Accuracy r) @ '' %'', Timestamp r)) leaderboard"

definition sort_values_descending :: "display_row list \<Rightarrow> display_row list" where
  \<comment> \<open>\<^verbatim>\<open>sort_values("Accuracy", ascending=False)\<close>: pandas reverses the column, sorts it
      ascending and reverses the result. Rows with equal keys are placed as a stable sort
      places them; pandas' default sort promises no order among them\<close>
  "sort_values_descending rows = rev (sort_key (\<lambda>r. fst (snd r)) (rev rows))"

definition show_leaderboard :: "table \<Rightarrow> display_row list option" where
  \<comment> \<open>\<open>None\<close> is the text \<^verbatim>\<open>No submissions yet.\<close>\<close>
  "show_leaderboard leaderboard =
     (if leaderboard = [] then None
      else Some (sort_values_descending (leaderboard_display leaderboard)))"

subsection \<open>One run of the script\<close>

text \<open>
  The script loads the leaderboard and the test set, handles the submission and shows the
  table. An exception of either loader ends the run before the handler.
\<close>

definition app ::
  "env \<Rightarrow> submission \<Rightarrow> world \<Rightarrow> exn + (message list \<times> display_row list option) \<times> world" where
  "app e sub w =
     (case load_leaderboard e w of
        Inl err \<Rightarrow> Inl err
      | Inr leaderboard \<Rightarrow>
     (case load_raw_test_images e of
        Inl err \<Rightarrow> Inl err
      | Inr (raw_images, y_test) \<Rightarrow>
     (case handle_submission e sub leaderboard raw_images y_test w of
        ((leaderboard', msgs), w') \<Rightarrow> Inr ((msgs, show_leaderboard leaderboard'), w'))))"

subsection \<open>Error taxonomy\<close>

datatype failure = MissingInput | ArtifactLoadError | UnsupportedShape | EvaluationError

fun failure_of :: "message \<Rightarrow> failure option" where
  "failure_of Warning_missing_file = Some MissingInput"
| "failure_of Warning_missing_username = Some MissingInput"
| "failure_of Error_concrete_dimensions = Some UnsupportedShape"
| "failure_of (Error_unsupported_shape shp) = Some UnsupportedShape"
| "failure_of (Error_load err) = Some ArtifactLoadError"
| "failure_of (Error_evaluation err) = Some EvaluationError"
| "failure_of (Success acc) = None"

section \<open>What the specification says of an accuracy\<close>

text \<open>
  The predicted class of a row of scores is the first index that holds the row's maximum;
  the accuracy is the fraction of the test images whose predicted class is their label.
  The model gives one row of scores per test image.
\<close>

definition is_argmax :: "rat list \<Rightarrow> nat \<Rightarrow> bool" where
  "is_argmax scores i =
     (i < length scores \<and> list_all (\<lambda>s. s \<le> scores ! i) scores \<and>
      list_all (\<lambda>s. s < scores ! i) (take i scores))"

definition correct :: "rat list list \<Rightarrow> nat list \<Rightarrow> nat" where
  \<comment> \<open>the number of test images whose predicted class is their label\<close>
  "correct preds y = length (filter (\<lambda>i. is_argmax (preds ! i) (y ! i)) [0..<length y])"

definition fraction_correct :: "rat list list \<Rightarrow> nat list \<Rightarrow> float64" where
  \<comment> \<open>that number divided by the number of test images, as a \<^verbatim>\<open>float64\<close>\<close>
  "fraction_correct preds y =
     (if y = [] then Nan else Finite (fl (of_nat (correct preds y) / of_nat (length y))))"

section \<open>What the specification says of the loader\<close>

text \<open>
  The files of a class folder in lexicographic order of their names, and the visits of the
  loader: for each class in the given order, each of its files with the index of the class.
\<close>

definition listing :: "env \<Rightarrow> string \<Rightarrow> string list" where
  "listing e cls =
     (case listdir e (path_join TEST_IMAGE_DIR cls) of
        Inl err \<Rightarrow> []
      | Inr names \<Rightarrow> sort names)"

definition visits :: "env \<Rightarrow> (nat \<times> string) list \<Rightarrow> (string \<times> nat) list" where
  "visits e classes =
     concat (map (\<lambda>(idx, cls).
                    map (\<lambda>fname. (path_join (path_join TEST_IMAGE_DIR cls) fname, idx))
                      (listing e cls)) classes)"

section \<open>The CSV file as pandas writes and reads it\<close>

text \<open>
  \<^verbatim>\<open>DataFrame.to_csv(path, index=False)\<close> writes the header and one line per row; a
  missing value is written as the empty field, a field holding a comma, a quote or a line
  feed is quoted. \<^verbatim>\<open>pandas.read_csv(path)\<close> with its defaults reads the first line as
  the header, skips blank lines, and reads every field that is one of its NA tokens as the
  missing value. The reader below covers the files whose fields are unquoted, whose header
  is that of the leaderboard, whose lines have three fields and whose \<^verbatim>\<open>Accuracy\<close> fields
  are missing or decimals with one or two decimal places; on every other file it answers
  \<open>outside_fragment\<close>, which stands for no behaviour of pandas in particular.
\<close>

definition newline :: char where
  "newline = CHR 0x0A"

definition quotechar :: char where
  "quotechar = CHR 0x22"

definition needs_quoting :: "string \<Rightarrow> bool" where
  "needs_quoting s = (\<exists>c \<in> set s. c = CHR '','' \<or> c = quotechar \<or> c = newline)"

definition csv_field :: "string \<Rightarrow> string" where
  "csv_field s =
     (if needs_quoting s
      then [quotechar] @ concat (map (\<lambda>c. if c = quotechar then [c, c] else [c]) s) @ [quotechar]
      else s)"

fun cell_text :: "cell \<Rightarrow> string" where
  "cell_text (Str s) = s"
| "cell_text NaN = []"

definition csv_header :: string where
  "csv_header = ''Username,Accuracy,Timestamp''"

fun percent_text :: "percent \<Rightarrow> string" where
  "percent_text (Percent k) = str_float k"
| "percent_text Missing = []"

definition csv_line :: "row \<Rightarrow> string" where
  "csv_line r =
     csv_field (cell_text (Username r)) @ '','' @ percent_text (Accuracy r) @ '','' @
     csv_field (cell_text (Timestamp r)) @ [newline]"

definition pandas_to_csv :: "table \<Rightarrow> string" where
  "pandas_to_csv df = csv_header @ [newline] @ concat (map csv_line df)"

definition NA_VALUES :: "string list" where
  "NA_VALUES =
     [[], ''#N/A'', ''#N/A N/A'', ''#NA'', ''-1.#IND'', ''-1.#QNAN'', ''-NaN'', ''-nan'',
      ''1.#IND'', ''1.#QNAN'', ''<NA>'', ''N/A'', ''NA'', ''NULL'', ''NaN'', ''None'', ''n/a'',
      ''nan'', ''null'']"

definition text_cell :: "string \<Rightarrow> cell" where
  "text_cell s = (if s \<in> set NA_VALUES then NaN else Str s)"

fun split_on :: "char \<Rightarrow> string \<Rightarrow> string list" where
  "split_on c [] = [[]]"
| "split_on c (x # xs) =
     (if x = c then [] # split_on c xs
      else (case split_on c xs of
              [] \<Rightarrow> [[x]]
            | f # fs \<Rightarrow> (x # f) # fs))"

definition is_digit :: "char \<Rightarrow> bool" where
  "is_digit c = (48 \<le> (of_char c :: nat) \<and> (of_char c :: nat) \<le> 57)"

definition digit_val :: "char \<Rightarrow> nat" where
  "digit_val c = of_char c - 48"

definition nat_of_digits :: "string \<Rightarrow> nat" where
  "nat_of_digits ds = fold (\<lambda>c n. 10 * n + digit_val c) ds 0"

definition parse_decimal :: "string \<Rightarrow> nat option" where
  "parse_decimal s =
     (case split_on CHR ''.'' s of
        [ip, fp] \<Rightarrow>
          if ip \<noteq> [] \<and> list_all is_digit ip \<and> list_all is_digit fp \<and>
             (length fp = 1 \<or> length fp = 2)
          then Some (100 * nat_of_digits ip +
                     (if length fp = 1 then 10 * nat_of_digits fp else nat_of_digits fp))
          else None
      | _ \<Rightarrow> None)"

definition parse_accuracy :: "string \<Rightarrow> percent option" where
  "parse_accuracy s =
     (if s \<in> set NA_VALUES then Some Missing
      else (case parse_decimal s of Some k \<Rightarrow> Some (Percent k) | None \<Rightarrow> None))"

definition outside_fragment :: exn where
  "outside_fragment = ''outside the modelled fragment''"

definition to_lower :: "char \<Rightarrow> char" where
  "to_lower c =
     (case map_of (zip ''ABCDEFGHIJKLMNOPQRSTUVWXYZ'' ''abcdefghijklmnopqrstuvwxyz'') c of
        Some l \<Rightarrow> l
      | None \<Rightarrow> c)"

definition may_convert :: "string \<Rightarrow> bool" where
  \<comment> \<open>a token that the reader might take for a number or a truth value: a superset of
      those it converts\<close>
  "may_convert s =
     (list_all (\<lambda>c. is_digit c \<or> c \<in> set ''+-.eE '') s \<or>
      map to_lower (filter (\<lambda>c. c \<notin> set ''+- '') s) \<in>
        set [''inf'', ''infinity'', ''true'', ''false''])"

definition text_column :: "string list \<Rightarrow> bool" where
  \<comment> \<open>the column keeps its strings: it is all missing, or some token is surely text\<close>
  "text_column tokens =
     (let present = filter (\<lambda>s. s \<notin> set NA_VALUES) tokens
      in present = [] \<or> (\<exists>s \<in> set present. \<not> may_convert s))"

definition parse_line :: "string \<Rightarrow> exn + row" where
  "parse_line l =
     (case split_on CHR '','' l of
        [u, a, t] \<Rightarrow>
          (case parse_accuracy a of
             Some k \<Rightarrow> Inr \<lparr>Username = text_cell u, Accuracy = k, Timestamp = text_cell t\<rparr>
           | None \<Rightarrow> Inl outside_fragment)
      | _ \<Rightarrow> Inl outside_fragment)"

definition pandas_read_csv :: "string \<Rightarrow> exn + table" where
  "pandas_read_csv content =
     (if quotechar \<in> set content \<or> CHR 0x0D \<in> set content then Inl outside_fragment
      else
        (case filter (\<lambda>l. l \<noteq> []) (split_on newline content) of
           [] \<Rightarrow> Inl ''No columns to parse from file''
         | header # lines \<Rightarrow>
             if header \<noteq> csv_header then Inl outside_fragment
             else if \<not> text_column (map (\<lambda>l. hd (split_on CHR '','' l)) lines) \<or>
                     \<not> text_column (map (\<lambda>l. last (split_on CHR '','' l)) lines)
             then Inl outside_fragment
             else map_exn parse_line lines))"

text \<open>
  A plain field is one that the writer leaves unquoted and the reader keeps as text; a
  plain row has a plain username, an accuracy and a plain timestamp.
\<close>

definition plain :: "string \<Rightarrow> bool" where
  "plain s =
     (s \<notin> set NA_VALUES \<and> \<not> needs_quoting s \<and> CHR 0x0D \<notin> set s \<and> \<not> may_convert s)"

definition plain_row :: "row \<Rightarrow> bool" where
  "plain_row r =
     (case (Username r, Accuracy r, Timestamp r) of
        (Str u, Percent k, Str t) \<Rightarrow> plain u \<and> plain t
      | _ \<Rightarrow> False)"

text \<open>The line of a row without its line break, when no field is quoted.\<close>

definition row_text :: "row \<Rightarrow> string" where
  "row_text r =
     cell_text (Username r) @ CHR '','' # percent_text (Accuracy r) @ CHR '','' #
     cell_text (Timestamp r)"

section \<open>A small installation\<close>

text \<open>
  Three test images, one per class, and three models that always answer class 0: one with
  a square input, one whose declared input is 1 high and 2 wide, and one with a single
  input channel. The uploaded bytes select the model.
\<close>

definition pixel_image :: image where
  "pixel_image = \<lparr>img_width = 1, img_height = 1, img_pixels = [255, 0, 0]\<rparr>"

definition always_zero :: "shape \<Rightarrow> model" where
  \<comment> \<open>like a Keras model, it refuses a batch whose images are not of the declared shape\<close>
  "always_zero shp =
     \<lparr>input_shape = Inr shp,
      predict = (\<lambda>x. case nd_shape x of
                       [] \<Rightarrow> Inl ''incompatible shape''
                     | n # dims \<Rightarrow>
                         if map Some dims = tl shp then Inr (replicate n [1, 0, 0])
                         else Inl ''incompatible shape'')\<rparr>"

definition demo_env :: env where
  "demo_env =
     \<lparr>listdir = (\<lambda>folder. Inr [''1.png'']),
      image_open = (\<lambda>path. Inr pixel_image),
      resample = (\<lambda>img sz. replicate (3 * fst sz * snd sz) 0),
      load_model = (\<lambda>bytes.
         if bytes = ''square'' then Inr (always_zero [None, Some 2, Some 2, Some 3])
         else if bytes = ''wide'' then Inr (always_zero [None, Some 1, Some 2, Some 3])
         else if bytes = ''gray'' then Inr (always_zero [None, Some 2, Some 2, Some 1])
         else Inl ''File not found: filepath is not a valid Keras file''),
      now = ''2024-05-01 12:00:00'',
      read_csv = pandas_read_csv,
      to_csv = pandas_to_csv\<rparr>"

definition demo_images :: "image list" where
  "demo_images = [pixel_image, pixel_image, pixel_image]"

definition demo_labels :: "nat list" where
  "demo_labels = [0, 1, 2]"

definition demo_submission :: "string \<Rightarrow> string \<Rightarrow> submission" where
  "demo_submission name bytes = \<lparr>username = name, uploaded_file = Some bytes, submit = True\<rparr>"

definition empty_world :: world where
  "empty_world = \<lparr>leaderboard_file = None, temp_files = [], saves = 0, evaluations = 0\<rparr>"

section \<open>Evaluating the definitions\<close>

lemma str_nat_small: "n < 10 \<Longrightarrow> str_nat n = [digit_char n]"
  by (simp add: str_nat.simps)

lemma str_nat_big: "\<not> n < 10 \<Longrightarrow> str_nat n = str_nat (n div 10) @ [digit_char (n mod 10)]"
  by (subst str_nat.simps) simp

lemma floor_rat_numeral:
  "\<lfloor>(numeral a :: rat) / numeral b\<rfloor> = numeral a div numeral b"
  by (metis floor_divide_of_int_eq of_int_numeral)

lemma doublings_found:
  assumes "0 < x" "2 ^ 52 \<le> x * 2 ^ n" "x * 2 ^ n < 2 ^ 53"
  shows "k \<le> n \<Longrightarrow> doublings x k = n"
proof (induction "n - k" arbitrary: k)
  case 0
  then have "k = n" by simp
  with assms(2) show ?case by (subst doublings.simps) simp
next
  case (Suc d)
  then have kn: "Suc k \<le> n" by simp
  have "n = (n - Suc k) + Suc k" using kn by simp
  then have "(2::rat) ^ n = 2 ^ (n - Suc k) * 2 ^ Suc k" by (metis power_add)
  then have "x * 2 ^ n = (x * 2 ^ k) * (2 * 2 ^ (n - Suc k))" by simp
  moreover have "(1::rat) \<le> 2 ^ (n - Suc k)" by simp
  ultimately have "x * 2 ^ k * 2 \<le> x * 2 ^ n"
    using assms(1) by (simp add: mult_left_mono)
  with assms(3) have "x * 2 ^ k < 2 ^ 52" by simp
  with assms(1) have "doublings x k = doublings x (Suc k)" by (subst doublings.simps) simp
  moreover from Suc have "doublings x (Suc k) = n" using kn by simp
  ultimately show ?case by simp
qed

lemma fl_eq:
  assumes "0 < x" "2 ^ 52 \<le> x * 2 ^ n" "x * 2 ^ n < 2 ^ 53"
  shows "fl x = of_int (round_half_even (x * 2 ^ n)) / 2 ^ n"
proof (cases "x < 2 ^ 52")
  case True
  from doublings_found[OF assms, of 0] have "doublings x 0 = n" by simp
  with True assms(1) show ?thesis by (simp add: fl_def fl_pos_def Let_def)
next
  case False
  have "n = 0"
  proof (rule ccontr)
    assume "n \<noteq> 0"
    then have "(2::rat) \<le> 2 ^ n" by (cases n) simp_all
    with assms(1) have "x * 2 \<le> x * 2 ^ n" by (simp add: mult_left_mono)
    with assms(3) False show False by simp
  qed
  with assms(3) have "halvings x 0 = 0" by (subst halvings.simps) simp
  with False assms(1) \<open>n = 0\<close> show ?thesis by (simp add: fl_def fl_pos_def Let_def)
qed

lemmas rhe_simps = round_half_even_def Let_def floor_rat_numeral

lemma fl_third: "fl (1 / 3) = 6004799503160661 / 18014398509481984"
  by (subst fl_eq[where n = 54]) (simp_all add: rhe_simps)

lemma round2_third: "round2 (float_mul (Finite (fl (1 / 3))) 100) = Percent 3333"
proof -
  have p: "fl (6004799503160661 / 18014398509481984 * 100) = 2345624805922133 / 70368744177664"
    by (subst fl_eq[where n = 47]) (simp_all add: rhe_simps)
  have q: "fl (2345624805922133 / 70368744177664 * 100) = 3665038759253333 / 1099511627776"
    by (subst fl_eq[where n = 41]) (simp_all add: rhe_simps)
  show ?thesis
    unfolding float_mul.simps round2.simps fl_third p q by (simp add: rhe_simps)
qed

lemma round2_23_of_160:
  "round2 (float_mul (Finite (fl (23 / 160))) 100) = Percent 1437 \<and>
   round_half_even (23 / 160 * 100 * 100) = 1438"
proof -
  have a: "fl (23 / 160) = 2589569785738035 / 18014398509481984"
    by (subst fl_eq[where n = 55]) (simp_all add: rhe_simps)
  have p: "fl (2589569785738035 / 18014398509481984 * 100) = 8092405580431359 / 562949953421312"
    by (subst fl_eq[where n = 49]) (simp_all add: rhe_simps)
  have q: "fl (8092405580431359 / 562949953421312 * 100) = 6322191859711999 / 4398046511104"
    by (subst fl_eq[where n = 42]) (simp_all add: rhe_simps)
  show ?thesis
    unfolding float_mul.simps round2.simps a p q by (simp add: rhe_simps)
qed

lemmas str_simps = str_float_def fraction_digits_def str_nat_small str_nat_big digit_char_def

lemmas csv_simps = pandas_to_csv_def csv_line_def csv_header_def csv_field_def needs_quoting_def
  newline_def quotechar_def str_simps

lemmas read_simps = pandas_read_csv_def parse_line_def parse_accuracy_def parse_decimal_def is_digit_def
  nat_of_digits_def digit_val_def text_column_def may_convert_def to_lower_def text_cell_def
  NA_VALUES_def csv_header_def newline_def quotechar_def outside_fragment_def Let_def

lemmas demo_simps =
  demo_env_def always_zero_def pixel_image_def empty_world_def demo_images_def demo_labels_def
  demo_submission_def evaluate_submission_def record_result_def save_leaderboard_def
  evaluate_model_def resized_imgs_def resize_def np_array_def np_stack_def argmax_def
  np_equal_def np_mean_def round2_third Let_def

lemma demo_load: "load_raw_test_images demo_env = Inr (demo_images, demo_labels)"
  by (simp add: load_raw_test_images_def CLASS_NAMES_def TEST_IMAGE_DIR_def demo_env_def
        demo_images_def demo_labels_def path_join_def enumerate_eq_zip upt_rec)

lemmas handler_simps = handle_submission_def with_temp_file_def write_temp_def fresh_name_def
  read_temp_def delete_temp_def load_and_evaluate_def strip_def isspace_def

lemma run_wide:
  "handle_submission demo_env (demo_submission ''alice'' ''wide'') lb demo_images demo_labels empty_world =
     ((lb, [Error_evaluation ''incompatible shape'']), empty_world\<lparr>evaluations := 1\<rparr>)"
  by (simp add: handler_simps demo_simps)

lemma run_gray:
  "handle_submission demo_env (demo_submission ''alice'' ''gray'') lb demo_images demo_labels empty_world =
     ((lb, [Error_unsupported_shape [None, Some 2, Some 2, Some 1]]), empty_world)"
  by (simp add: handler_simps demo_simps)

lemma run_square:
  "handle_submission demo_env (demo_submission '' alice '' ''square'') [] demo_images demo_labels empty_world =
     (([\<lparr>Username = Str '' alice '', Accuracy = Percent 3333, Timestamp = Str ''2024-05-01 12:00:00''\<rparr>],
       [Success (Finite (fl (1 / 3)))]),
      empty_world\<lparr>leaderboard_file :=
          Some (''Username,Accuracy,Timestamp'' @ [CHR 0x0A] @ '' alice ,33.33,2024-05-01 12:00:00'' @ [CHR 0x0A]),
        saves := 1, evaluations := 1\<rparr>)"
  by (simp add: handler_simps demo_simps csv_simps)

section \<open>Properties of the loader\<close>

lemma load_files_Inr:
  "load_files e folder idx names (images, labels) = Inr (images', labels') \<Longrightarrow>
   map Inr images' = map Inr images @ map (\<lambda>fname. image_open e (path_join folder fname)) names \<and>
   labels' = labels @ replicate (length names) idx"
proof (induction names arbitrary: images labels)
  case Nil
  then show ?case by simp
next
  case (Cons fname rest)
  from Cons.prems obtain img where img: "image_open e (path_join folder fname) = Inr img"
    and rest: "load_files e folder idx rest (images @ [img], labels @ [idx]) = Inr (images', labels')"
    by (auto split: sum.splits)
  from Cons.IH[OF rest] img show ?case by (simp add: replicate_app_Cons_same)
qed

lemma load_classes_Inr:
  "load_classes e classes (images, labels) = Inr (images', labels') \<Longrightarrow>
   map Inr images' = map Inr images @ map (\<lambda>v. image_open e (fst v)) (visits e classes) \<and>
   labels' = labels @ map snd (visits e classes)"
proof (induction classes arbitrary: images labels)
  case Nil
  then show ?case by (simp add: visits_def)
next
  case (Cons c rest)
  obtain idx cls where c: "c = (idx, cls)" by (cases c)
  from Cons.prems c obtain names images1 labels1 where
    names: "listdir e (path_join TEST_IMAGE_DIR cls) = Inr names"
    and files: "load_files e (path_join TEST_IMAGE_DIR cls) idx (sort names) (images, labels) = Inr (images1, labels1)"
    and more: "load_classes e rest (images1, labels1) = Inr (images', labels')"
    by (auto split: sum.splits)
  have v: "visits e (c # rest) =
           map (\<lambda>fname. (path_join (path_join TEST_IMAGE_DIR cls) fname, idx)) (sort names) @ visits e rest"
    using c names by (simp add: visits_def listing_def)
  from load_files_Inr[OF files] Cons.IH[OF more] show ?case
    by (simp add: v comp_def map_replicate_const)
qed

lemma visits_labels: "snd ` set (visits e classes) \<subseteq> fst ` set classes"
  by (force simp add: visits_def)

lemma load_files_returns:
  "(\<forall>fname \<in> set names. \<exists>img. image_open e (path_join folder fname) = Inr img) \<Longrightarrow>
   \<exists>r. load_files e folder idx names acc = Inr r"
proof (induction names arbitrary: acc)
  case Nil then show ?case by simp
next
  case (Cons fname rest)
  obtain images labels where acc: "acc = (images, labels)" by (cases acc)
  from Cons.prems obtain img where "image_open e (path_join folder fname) = Inr img" by auto
  with Cons.IH[of "(images @ [img], labels @ [idx])"] Cons.prems acc show ?case by simp
qed

lemma load_classes_returns:
  "(\<forall>c \<in> set classes. \<exists>names. listdir e (path_join TEST_IMAGE_DIR (snd c)) = Inr names \<and>
      (\<forall>fname \<in> set names. \<exists>img. image_open e (path_join (path_join TEST_IMAGE_DIR (snd c)) fname) = Inr img)) \<Longrightarrow>
   \<exists>r. load_classes e classes acc = Inr r"
proof (induction classes arbitrary: acc)
  case Nil then show ?case by simp
next
  case (Cons c rest)
  obtain idx cls where c: "c = (idx, cls)" by (cases c)
  from Cons.prems c obtain names where names: "listdir e (path_join TEST_IMAGE_DIR cls) = Inr names"
    and ok: "\<forall>fname \<in> set names. \<exists>img. image_open e (path_join (path_join TEST_IMAGE_DIR cls) fname) = Inr img"
    by auto
  from ok have "\<forall>fname \<in> set (sort names). \<exists>img. image_open e (path_join (path_join TEST_IMAGE_DIR cls) fname) = Inr img"
    by simp
  from load_files_returns[OF this] obtain acc' where
    "load_files e (path_join TEST_IMAGE_DIR cls) idx (sort names) acc = Inr acc'" by blast
  with Cons.IH[of acc'] Cons.prems names c show ?case by simp
qed

lemma load_raw_test_images_returns:
  assumes "\<forall>cls \<in> set CLASS_NAMES. \<exists>names. listdir e (path_join TEST_IMAGE_DIR cls) = Inr names \<and>
      (\<forall>fname \<in> set names. \<exists>img. image_open e (path_join (path_join TEST_IMAGE_DIR cls) fname) = Inr img)"
  shows "\<exists>r. load_raw_test_images e = Inr r"
  unfolding load_raw_test_images_def
proof (rule load_classes_returns)
  show "\<forall>c \<in> set (enumerate 0 CLASS_NAMES). \<exists>names. listdir e (path_join TEST_IMAGE_DIR (snd c)) = Inr names \<and>
      (\<forall>fname \<in> set names. \<exists>img. image_open e (path_join (path_join TEST_IMAGE_DIR (snd c)) fname) = Inr img)"
    using assms by (auto simp add: in_set_enumerate_eq)
qed

section \<open>Properties of the scoped temporary file\<close>

lemma fold_max_start: "a \<le> fold max xs (a::nat)"
proof (induction xs arbitrary: a)
  case Nil then show ?case by simp
next
  case (Cons y ys)
  have "a \<le> max y a" by simp
  also have "\<dots> \<le> fold max ys (max y a)" by (rule Cons.IH)
  finally show ?case by simp
qed

lemma fold_max_ge: "x \<in> set xs \<Longrightarrow> x \<le> fold max xs (a::nat)"
proof (induction xs arbitrary: a)
  case Nil then show ?case by simp
next
  case (Cons y ys)
  show ?case
  proof (cases "x = y")
    case True
    have "y \<le> max y a" by simp
    also have "\<dots> \<le> fold max ys (max y a)" by (rule fold_max_start)
    finally show ?thesis using True by simp
  next
    case False
    with Cons.prems have "x \<in> set ys" by simp
    then show ?thesis using Cons.IH by simp
  qed
qed

lemma fresh_name_fresh: "fresh_name files \<notin> fst ` set files"
proof
  assume "fresh_name files \<in> fst ` set files"
  then have "fresh_name files \<in> set (map fst files)" by simp
  then have "fresh_name files \<le> fold max (map fst files) 0" by (rule fold_max_ge)
  then show False by (simp add: fresh_name_def)
qed

lemma filter_fresh: "n \<notin> fst ` set files \<Longrightarrow> filter (\<lambda>f. fst f \<noteq> n) files = files"
  by (induction files) auto

lemma with_temp_file_restores:
  assumes "\<And>t w1. temp_files (snd (body t w1)) = temp_files w1"
  shows "temp_files (snd (with_temp_file bytes body w)) = temp_files w"
proof -
  obtain r w2 where b: "body (fresh_name (temp_files w)) (w\<lparr>temp_files := (fresh_name (temp_files w), bytes) # temp_files w\<rparr>) = (r, w2)"
    by (cases "body (fresh_name (temp_files w)) (w\<lparr>temp_files := (fresh_name (temp_files w), bytes) # temp_files w\<rparr>)")
  from assms[of "fresh_name (temp_files w)" "w\<lparr>temp_files := (fresh_name (temp_files w), bytes) # temp_files w\<rparr>"] b
  have "temp_files w2 = (fresh_name (temp_files w), bytes) # temp_files w" by simp
  then show ?thesis
    using b fresh_name_fresh[of "temp_files w"]
    by (simp add: with_temp_file_def write_temp_def delete_temp_def Let_def filter_fresh)
qed

lemma evaluate_submission_temp_files:
  "temp_files (snd (evaluate_submission e sub lb imgs y m w)) = temp_files w"
  by (simp add: evaluate_submission_def record_result_def save_leaderboard_def Let_def
           split: sum.splits option.splits prod.splits)

lemma load_and_evaluate_temp_files:
  "temp_files (snd (load_and_evaluate e sub lb imgs y t w)) = temp_files w"
  by (simp add: load_and_evaluate_def evaluate_submission_temp_files split: sum.splits option.splits)

lemma handle_submission_temp_files:
  "temp_files (snd (handle_submission e sub lb imgs y w)) = temp_files w"
  by (simp add: handle_submission_def with_temp_file_restores load_and_evaluate_temp_files)


lemma evaluate_submission_frame:
  "evaluate_submission e sub lb imgs y m (w\<lparr>temp_files := t\<rparr>) =
     (fst (evaluate_submission e sub lb imgs y m w),
      (snd (evaluate_submission e sub lb imgs y m w))\<lparr>temp_files := t\<rparr>)"
  by (simp add: evaluate_submission_def record_result_def save_leaderboard_def Let_def
           split: sum.splits option.splits prod.splits)

lemma delete_written:
  "temp_files w' = temp_files w \<Longrightarrow>
   delete_temp (fresh_name (temp_files w))
     (w'\<lparr>temp_files := (fresh_name (temp_files w), bytes) # temp_files w\<rparr>) = w'"
  using fresh_name_fresh[of "temp_files w"]
  by (simp add: delete_temp_def filter_fresh)



lemma handle_submission_loaded:
  assumes "submit sub" "uploaded_file sub = Some bytes" "strip (username sub) \<noteq> []"
    and "load_model e bytes = Inr m"
  shows "handle_submission e sub lb imgs y w = evaluate_submission e sub lb imgs y m w"
proof -
  let ?n = "fresh_name (temp_files w)"
  let ?w1 = "w\<lparr>temp_files := (?n, bytes) # temp_files w\<rparr>"
  obtain r w2 where ev: "evaluate_submission e sub lb imgs y m w = (r, w2)"
    by (cases "evaluate_submission e sub lb imgs y m w")
  have tf: "temp_files w2 = temp_files w"
    using evaluate_submission_temp_files[of e sub lb imgs y m w] ev by simp
  have "evaluate_submission e sub lb imgs y m ?w1 = (r, w2\<lparr>temp_files := (?n, bytes) # temp_files w\<rparr>)"
    using evaluate_submission_frame[where w = w and m = m] ev by simp
  then have "load_and_evaluate e sub lb imgs y ?n ?w1 = (r, w2\<lparr>temp_files := (?n, bytes) # temp_files w\<rparr>)"
    using assms(4) by (simp add: load_and_evaluate_def read_temp_def)
  then show ?thesis
    using assms(1-3) ev delete_written[OF tf]
    by (simp add: handle_submission_def with_temp_file_def write_temp_def Let_def)
qed

lemma handle_submission_load_error:
  assumes "submit sub" "uploaded_file sub = Some bytes" "strip (username sub) \<noteq> []"
    and "load_model e bytes = Inl err"
  shows "handle_submission e sub lb imgs y w = ((lb, [Error_load err]), w)"
proof -
  let ?n = "fresh_name (temp_files w)"
  let ?w1 = "w\<lparr>temp_files := (?n, bytes) # temp_files w\<rparr>"
  have "load_and_evaluate e sub lb imgs y ?n ?w1 = ((lb, [Error_load err]), ?w1)"
    using assms(4) by (simp add: load_and_evaluate_def read_temp_def)
  then show ?thesis
    using assms(1-3) delete_written[where w = w and w' = w and bytes = bytes]
    by (simp add: handle_submission_def with_temp_file_def write_temp_def Let_def)
qed

lemma evaluate_submission_messages:
  "evaluate_submission e sub lb imgs y m w = ((lb', msgs), w') \<Longrightarrow> \<exists>msg. msgs = [msg]"
  by (auto simp add: evaluate_submission_def record_result_def Let_def
           split: sum.splits option.splits prod.splits if_splits)

lemma handle_submission_messages:
  assumes "handle_submission e sub lb imgs y w = ((lb', msgs), w')"
  shows "length msgs \<le> 1"
proof (cases "submit sub \<and> uploaded_file sub \<noteq> None \<and> strip (username sub) \<noteq> []")
  case True
  then obtain bytes where b: "uploaded_file sub = Some bytes" by auto
  show ?thesis
  proof (cases "load_model e bytes")
    case (Inl err)
    from handle_submission_load_error[OF _ b _ Inl, of lb imgs y w] True assms show ?thesis by simp
  next
    case (Inr m)
    from handle_submission_loaded[OF _ b _ Inr, of lb imgs y w] True assms
    have "evaluate_submission e sub lb imgs y m w = ((lb', msgs), w')" by simp
    from evaluate_submission_messages[OF this] show ?thesis by auto
  qed
next
  case False
  with assms show ?thesis by (auto simp add: handle_submission_def split: if_splits)
qed

lemma evaluate_submission_failure:
  assumes "evaluate_submission e sub lb imgs y m w = ((lb', msgs), w')"
    and "msg \<in> set msgs" "failure_of msg \<noteq> None"
  shows "lb' = lb \<and> leaderboard_file w' = leaderboard_file w \<and> saves w' = saves w"
  using assms
  by (auto simp add: evaluate_submission_def record_result_def Let_def
           split: sum.splits option.splits prod.splits if_splits)

section \<open>Properties of the evaluator\<close>

lemma map_exn_Inr:
  "map_exn f xs = Inr ys \<Longrightarrow> length ys = length xs \<and> (\<forall>i<length xs. f (xs ! i) = Inr (ys ! i))"
proof (induction xs arbitrary: ys)
  case Nil then show ?case by simp
next
  case (Cons x xs)
  from Cons.prems obtain z zs where z: "f x = Inr z" "map_exn f xs = Inr zs" "ys = z # zs"
    by (auto split: sum.splits)
  from Cons.IH[OF z(2)] z show ?case by (auto simp add: nth_Cons split: nat.splits)
qed


lemma argmax_loop_correct:
  "best < length pre \<Longrightarrow> pre ! best = v \<Longrightarrow> (\<forall>s \<in> set pre. s \<le> v) \<Longrightarrow>
   (\<forall>s \<in> set (take best pre). s < v) \<Longrightarrow>
   is_argmax (pre @ xs) (argmax_loop xs (length pre) best v)"
proof (induction xs arbitrary: pre best v)
  case Nil
  then show ?case by (simp add: is_argmax_def list_all_iff)
next
  case (Cons x xs)
  show ?case
  proof (cases "v < x")
    case True
    have "is_argmax ((pre @ [x]) @ xs) (argmax_loop xs (length (pre @ [x])) (length pre) x)"
    proof (rule Cons.IH)
      show "length pre < length (pre @ [x])" by simp
      show "(pre @ [x]) ! length pre = x" by simp
      show "\<forall>s \<in> set (pre @ [x]). s \<le> x" using Cons.prems(3) True by auto
      show "\<forall>s \<in> set (take (length pre) (pre @ [x])). s < x" using Cons.prems(3) True by auto
    qed
    with True show ?thesis by simp
  next
    case False
    have "is_argmax ((pre @ [x]) @ xs) (argmax_loop xs (length (pre @ [x])) best v)"
    proof (rule Cons.IH)
      show "best < length (pre @ [x])" using Cons.prems(1) by simp
      show "(pre @ [x]) ! best = v" using Cons.prems(1,2) by (simp add: nth_append)
      show "\<forall>s \<in> set (pre @ [x]). s \<le> v" using Cons.prems(3) False by auto
      show "\<forall>s \<in> set (take best (pre @ [x])). s < v" using Cons.prems(1,4) by simp
    qed
    with False show ?thesis by simp
  qed
qed


lemma is_argmax_unique:
  assumes "is_argmax scores i" "is_argmax scores j"
  shows "i = j"
proof -
  have lt: "\<And>a b. is_argmax scores a \<Longrightarrow> is_argmax scores b \<Longrightarrow> a < b \<Longrightarrow> False"
  proof -
    fix a b assume a: "is_argmax scores a" and b: "is_argmax scores b" and "a < b"
    from b \<open>a < b\<close> have "scores ! a \<in> set (take b scores)"
      by (metis in_set_conv_nth is_argmax_def length_take min_less_iff_conj nth_take order_less_trans)
    with b have "scores ! a < scores ! b" by (simp add: is_argmax_def list_all_iff)
    moreover from a b have "scores ! b \<le> scores ! a" by (simp add: is_argmax_def list_all_iff)
    ultimately show False by simp
  qed
  show ?thesis using lt[OF assms] lt[OF assms(2,1)] by (cases i j rule: linorder_cases) auto
qed


lemma argmax_is_argmax:
  assumes "argmax scores = Inr k"
  shows "is_argmax scores i \<longleftrightarrow> i = k"
proof -
  from assms obtain x xs where s: "scores = x # xs" "k = argmax_loop xs 1 0 x"
    by (auto simp add: argmax_def split: list.splits)
  have "is_argmax ([x] @ xs) (argmax_loop xs (length [x]) 0 x)"
    by (rule argmax_loop_correct) simp_all
  with s have "is_argmax scores k" by simp
  then show ?thesis using is_argmax_unique by blast
qed


lemma count_hits:
  "length ps = length ls \<Longrightarrow>
   length (filter (\<lambda>b. b) (map (\<lambda>(p, l). p = l) (zip ps ls))) =
   length (filter (\<lambda>i. ps ! i = ls ! i) [0..<length ls])"
proof (induction ps ls rule: list_induct2)
  case Nil then show ?case by simp
next
  case (Cons p ps l ls)
  have "filter (\<lambda>i. (p # ps) ! i = (l # ls) ! i) [0..<length (l # ls)] =
        filter (\<lambda>i. (p # ps) ! i = (l # ls) ! i) (0 # map Suc [0..<length ls])"
    by (simp add: upt_conv_Cons map_Suc_upt del: upt_Suc)
  then have "length (filter (\<lambda>i. (p # ps) ! i = (l # ls) ! i) [0..<length (l # ls)]) =
        (if p = l then 1 else 0) + length (filter (\<lambda>i. ps ! i = ls ! i) [0..<length ls])"
    by (simp add: filter_map comp_def)
  with Cons.IH show ?case by simp
qed


lemma evaluate_model_fraction:
  assumes "evaluate_model e m imgs y sz = Inr acc"
    and "resized_imgs e imgs sz = Inr arrays" "np_stack arrays = Inr x" "predict m x = Inr preds"
    and "length preds = length y"
  shows "acc = fraction_correct preds y"
proof -
  note a = assms(2) and x = assms(3) and p = assms(4)
  obtain y_pred where yp: "map_exn argmax preds = Inr y_pred"
    using assms(1) a x p by (cases "map_exn argmax preds") (simp_all add: evaluate_model_def)
  obtain hits where h: "np_equal y_pred y = Inr hits"
    using assms(1) a x p yp by (cases "np_equal y_pred y") (simp_all add: evaluate_model_def)
  have acc: "acc = np_mean hits"
    using assms(1) a x p yp h by (simp add: evaluate_model_def)
  have lp: "length y_pred = length preds"
    using map_exn_Inr[OF yp] by simp
  then have len: "length y_pred = length y" using assms(5) by simp
  have hits: "hits = map (\<lambda>(p, l). p = l) (zip y_pred y)"
    using h len by (simp add: np_equal_def)
  have am: "argmax (preds ! i) = Inr (y_pred ! i)" if "i < length preds" for i
    using map_exn_Inr[OF yp] that by simp
  have "filter (\<lambda>i. y_pred ! i = y ! i) [0..<length y] =
        filter (\<lambda>i. is_argmax (preds ! i) (y ! i)) [0..<length y]"
  proof (rule filter_cong[OF refl])
    fix i assume "i \<in> set [0..<length y]"
    then have "i < length preds" using len lp by simp
    from argmax_is_argmax[OF am[OF this], of "y ! i"]
    show "(y_pred ! i = y ! i) = is_argmax (preds ! i) (y ! i)"
      by (simp add: eq_commute)
  qed
  then have count: "length (filter (\<lambda>b. b) hits) = correct preds y"
    using count_hits[OF len] hits by (simp add: correct_def)
  have "length hits = length y" using hits len by simp
  then have "(hits = []) = (y = [])" by (metis length_0_conv)
  with count \<open>length hits = length y\<close> show ?thesis
    by (simp add: acc np_mean_def fraction_correct_def)
qed

lemma resized_imgs_geometry:
  assumes "resized_imgs e imgs (a, b) = Inr arrays"
  shows "length arrays = length imgs \<and> list_all (\<lambda>arr. nd_shape arr = [b, a, 3]) arrays"
proof -
  let ?f = "\<lambda>img. case resize e img (a, b) of Inl err \<Rightarrow> Inl err | Inr r \<Rightarrow> Inr (np_array r)"
  from assms have m: "map_exn ?f imgs = Inr arrays" by (simp add: resized_imgs_def)
  from map_exn_Inr[OF m] have len: "length arrays = length imgs"
    and each: "\<And>i. i < length imgs \<Longrightarrow> ?f (imgs ! i) = Inr (arrays ! i)" by auto
  have "nd_shape (arrays ! i) = [b, a, 3]" if "i < length arrays" for i
  proof -
    from that len have "?f (imgs ! i) = Inr (arrays ! i)" using each by simp
    then have "arrays ! i =
        \<lparr>nd_shape = [b, a, 3],
         nd_data = map (\<lambda>v. of_nat v / 255) (resample e (imgs ! i) (a, b))\<rparr>"
      by (auto simp add: resize_def np_array_def split: sum.splits if_splits)
    then show ?thesis by simp
  qed
  then have "list_all (\<lambda>arr. nd_shape arr = [b, a, 3]) arrays"
    by (auto simp add: list_all_iff in_set_conv_nth)
  with len show ?thesis by simp
qed

section \<open>No change of the leaderboard on failure\<close>

text \<open>
  Claim C5. A submission that ends in a failure (a missing file or username, a model that
  does not load, an unsupported shape, an exception of the evaluation) leaves the content
  of the leaderboard file as it was: \<^verbatim>\<open>save_leaderboard\<close> is not called, and the
  in-memory table is unchanged.
\<close>

theorem failure_leaves_leaderboard_file:
  assumes "handle_submission e sub lb imgs y w = ((lb', msgs), w')"
    and "\<exists>msg \<in> set msgs. failure_of msg \<noteq> None"
  shows "leaderboard_file w' = leaderboard_file w \<and> saves w' = saves w \<and> lb' = lb"
proof (cases "submit sub \<and> uploaded_file sub \<noteq> None \<and> strip (username sub) \<noteq> []")
  case True
  then obtain bytes where b: "uploaded_file sub = Some bytes" by auto
  show ?thesis
  proof (cases "load_model e bytes")
    case (Inl err)
    from handle_submission_load_error[OF _ b _ Inl, of lb imgs y w] True assms show ?thesis by simp
  next
    case (Inr m)
    from handle_submission_loaded[OF _ b _ Inr, of lb imgs y w] True assms
    have "evaluate_submission e sub lb imgs y m w = ((lb', msgs), w')" by simp
    with assms(2) evaluate_submission_failure show ?thesis by blast
  qed
next
  case False
  with assms show ?thesis by (auto simp add: handle_submission_def split: if_splits)
qed

theorem failure_leaves_leaderboard_file_witness:
  "handle_submission demo_env (demo_submission ''alice'' ''wide'') [] demo_images demo_labels empty_world =
     (([], [Error_evaluation ''incompatible shape'']), empty_world\<lparr>evaluations := 1\<rparr>) \<and>
   (\<exists>msg \<in> set [Error_evaluation ''incompatible shape'']. failure_of msg \<noteq> None) \<and>
   leaderboard_file (empty_world\<lparr>evaluations := 1\<rparr>) = leaderboard_file empty_world \<and>
   saves (empty_world\<lparr>evaluations := 1\<rparr>) = saves empty_world"
  using failure_leaves_leaderboard_file[OF run_wide[of "[]"]] run_wide[of "[]"] by simp

section \<open>The loader's order and labels\<close>

text \<open>
  Claim C8. When the loader returns, it has visited the class folders in the order of
  \<^verbatim>\<open>CLASS_NAMES\<close> and the files of each folder in lexicographic order of their names: the
  images are the decoded files of \<open>visits\<close>, in that order, and the label of each is the
  index of its class. The two sequences have the same length and every label is an index
  into \<^verbatim>\<open>CLASS_NAMES\<close>.
\<close>

theorem loader_order_and_labels:
  assumes "load_raw_test_images e = Inr (images, labels)"
  shows "map Inr images = map (\<lambda>v. image_open e (fst v)) (visits e (enumerate 0 CLASS_NAMES)) \<and>
         labels = map snd (visits e (enumerate 0 CLASS_NAMES)) \<and>
         length images = length labels \<and>
         (\<forall>l \<in> set labels. l < length CLASS_NAMES) \<and>
         (\<forall>cls \<in> set CLASS_NAMES. sorted (listing e cls))"
proof -
  from load_classes_Inr[OF assms[unfolded load_raw_test_images_def]]
  have im: "map Inr images = map (\<lambda>v. image_open e (fst v)) (visits e (enumerate 0 CLASS_NAMES))"
    and lb: "labels = map snd (visits e (enumerate 0 CLASS_NAMES))" by simp_all
  from im have "length (map Inr images :: (exn + image) list) = length (visits e (enumerate 0 CLASS_NAMES))" 
    by simp
  then have len: "length images = length labels" using lb by simp
  have "set labels \<subseteq> fst ` set (enumerate 0 CLASS_NAMES)"
    using visits_labels[of e "enumerate 0 CLASS_NAMES"] lb by simp
  then have rng: "\<forall>l \<in> set labels. l < length CLASS_NAMES"
    by (auto simp add: in_set_enumerate_eq)
  have srt: "\<forall>cls \<in> set CLASS_NAMES. sorted (listing e cls)"
    by (simp add: listing_def split: sum.splits)
  from im lb len rng srt show ?thesis by blast
qed

theorem loader_order_and_labels_witness:
  "load_raw_test_images demo_env = Inr (demo_images, demo_labels) \<and>
   demo_labels = map snd (visits demo_env (enumerate 0 CLASS_NAMES)) \<and>
   length demo_images = length demo_labels \<and>
   list_all (\<lambda>l. l < length CLASS_NAMES) demo_labels"
  using loader_order_and_labels[OF demo_load] demo_load by (simp add: list_all_iff)

section \<open>Missing inputs\<close>

text \<open>
  Claim C7. A submission with neither a model file nor a username is answered by one
  warning, the one about the missing file: the handler tests for the file first. No
  submission is answered by both warnings.
\<close>

theorem missing_file_warning_takes_precedence:
  "(submit sub \<and> uploaded_file sub = None \<and> strip (username sub) = [] \<longrightarrow>
      snd (fst (handle_submission e sub lb imgs y w)) = [Warning_missing_file]) \<and>
   \<not> (Warning_missing_file \<in> set (snd (fst (handle_submission e sub lb imgs y w))) \<and>
      Warning_missing_username \<in> set (snd (fst (handle_submission e sub lb imgs y w))))"
proof -
  obtain lb' msgs w' where h: "handle_submission e sub lb imgs y w = ((lb', msgs), w')"
    by (cases "handle_submission e sub lb imgs y w") auto
  have one: "length msgs \<le> 1" by (rule handle_submission_messages[OF h])
  have "\<not> (Warning_missing_file \<in> set msgs \<and> Warning_missing_username \<in> set msgs)"
  proof
    assume both: "Warning_missing_file \<in> set msgs \<and> Warning_missing_username \<in> set msgs"
    then obtain m where "msgs = [m]" using one by (cases msgs) auto
    with both show False by auto
  qed
  moreover have "submit sub \<and> uploaded_file sub = None \<and> strip (username sub) = [] \<longrightarrow>
      snd (fst (handle_submission e sub lb imgs y w)) = [Warning_missing_file]"
    by (simp add: handle_submission_def)
  ultimately show ?thesis using h by simp
qed

theorem missing_file_warning_takes_precedence_witness:
  "submit \<lparr>username = ''  '', uploaded_file = None, submit = True\<rparr> \<and>
   uploaded_file \<lparr>username = ''  '', uploaded_file = None, submit = True\<rparr> = None \<and>
   strip (username \<lparr>username = ''  '', uploaded_file = None, submit = True\<rparr>) = [] \<and>
   snd (fst (handle_submission demo_env \<lparr>username = ''  '', uploaded_file = None, submit = True\<rparr>
               [] demo_images demo_labels empty_world)) = [Warning_missing_file]"
  using missing_file_warning_takes_precedence
    [of "\<lparr>username = ''  '', uploaded_file = None, submit = True\<rparr>" demo_env "[]" demo_images
        demo_labels empty_world]
  by (simp add: strip_def isspace_def)

section \<open>The uploaded artifact\<close>

text \<open>
  Claim C9. A submission with a file and a username is handled inside the scope of a
  temporary file that holds the uploaded bytes. When the handling ends, on whichever path,
  that file is gone and the temporary files are those that were there before.
\<close>

theorem temporary_file_is_deleted:
  assumes "submit sub" "uploaded_file sub = Some bytes" "strip (username sub) \<noteq> []"
  shows "handle_submission e sub lb imgs y w =
           with_temp_file bytes (load_and_evaluate e sub lb imgs y) w \<and>
         read_temp (fst (write_temp bytes w)) (snd (write_temp bytes w)) = Some bytes \<and>
         fst (write_temp bytes w) \<notin> fst ` set (temp_files (snd (handle_submission e sub lb imgs y w))) \<and>
         temp_files (snd (handle_submission e sub lb imgs y w)) = temp_files w"
proof -
  have a: "handle_submission e sub lb imgs y w = with_temp_file bytes (load_and_evaluate e sub lb imgs y) w"
    using assms by (simp add: handle_submission_def)
  have b: "read_temp (fst (write_temp bytes w)) (snd (write_temp bytes w)) = Some bytes"
    by (simp add: read_temp_def write_temp_def Let_def)
  have c: "temp_files (snd (handle_submission e sub lb imgs y w)) = temp_files w"
    by (rule handle_submission_temp_files)
  have d: "fst (write_temp bytes w) \<notin> fst ` set (temp_files (snd (handle_submission e sub lb imgs y w)))"
    using fresh_name_fresh[of "temp_files w"] c by (simp add: write_temp_def Let_def)
  from a b c d show ?thesis by blast
qed

theorem temporary_file_is_deleted_witness:
  "submit (demo_submission ''alice'' ''square'') \<and>
   uploaded_file (demo_submission ''alice'' ''square'') = Some ''square'' \<and>
   strip (username (demo_submission ''alice'' ''square'')) \<noteq> [] \<and>
   read_temp (fst (write_temp ''square'' empty_world)) (snd (write_temp ''square'' empty_world)) =
     Some ''square'' \<and>
   temp_files (snd (handle_submission demo_env (demo_submission ''alice'' ''square'') []
                      demo_images demo_labels empty_world)) = temp_files empty_world"
proof -
  have s: "submit (demo_submission ''alice'' ''square'')"
    and u: "uploaded_file (demo_submission ''alice'' ''square'') = Some ''square''"
    and n: "strip (username (demo_submission ''alice'' ''square'')) \<noteq> []"
    by (simp_all add: demo_submission_def strip_def isspace_def)
  from temporary_file_is_deleted[OF s u n, of demo_env "[]" demo_images demo_labels empty_world] s u n
  show ?thesis by blast
qed

section \<open>Shape check\<close>

lemma evaluate_submission_rejected:
  assumes "input_shape m = Inr shp"
    and "length shp \<noteq> 4 \<or> last shp \<noteq> Some 3 \<or> shp ! 1 = None \<or> shp ! 2 = None"
  shows "\<exists>msg. failure_of msg = Some UnsupportedShape \<and>
           evaluate_submission e sub lb imgs y m w = ((lb, [msg]), w)"
proof (cases "length shp = 4 \<and> last shp = Some 3")
  case True
  with assms(2) have "shp ! 1 = None \<or> shp ! 2 = None" by simp
  then have "evaluate_submission e sub lb imgs y m w = ((lb, [Error_concrete_dimensions]), w)"
    using assms(1) True by (auto simp add: evaluate_submission_def split: option.splits)
  then show ?thesis by simp
next
  case False
  then have "evaluate_submission e sub lb imgs y m w = ((lb, [Error_unsupported_shape shp]), w)"
    using assms(1) by (auto simp add: evaluate_submission_def)
  then show ?thesis by simp
qed

lemma evaluate_submission_accepted:
  assumes "input_shape m = Inr shp"
    and "length shp = 4" "last shp = Some 3" "shp ! 1 = Some h" "shp ! 2 = Some wd"
  shows "evaluate_submission e sub lb imgs y m w =
           (case evaluate_model e m imgs y (h, wd) of
              Inl err \<Rightarrow> ((lb, [Error_evaluation err]), w\<lparr>evaluations := Suc (evaluations w)\<rparr>)
            | Inr acc \<Rightarrow> record_result e sub lb acc (w\<lparr>evaluations := Suc (evaluations w)\<rparr>))"
  using assms by (simp add: evaluate_submission_def Let_def)

lemma gray_facts:
  "submit (demo_submission ''alice'' ''gray'')"
  "uploaded_file (demo_submission ''alice'' ''gray'') = Some ''gray''"
  "strip (username (demo_submission ''alice'' ''gray'')) \<noteq> []"
  "load_model demo_env ''gray'' = Inr (always_zero [None, Some 2, Some 2, Some 1])"
  "input_shape (always_zero [None, Some 2, Some 2, Some 1]) = Inr [None, Some 2, Some 2, Some 1]"
  by (simp_all add: demo_submission_def strip_def isspace_def demo_env_def always_zero_def)

text \<open>
  Claim C4. For a model that loads, the submission is answered by an unsupported-shape
  error exactly when the declared input shape has a rank other than 4, or a last dimension
  other than 3, or a height or width that is \<^verbatim>\<open>None\<close>. Then \<^verbatim>\<open>evaluate_model\<close> is not called
  and neither the table nor the file changes; in particular a channel count other than 3
  is rejected whatever the other dimensions are. Otherwise the evaluation runs.
\<close>

theorem unsupported_shape_rejection:
  assumes "submit sub" "uploaded_file sub = Some bytes" "strip (username sub) \<noteq> []"
    and "load_model e bytes = Inr m" "input_shape m = Inr shp"
    and "handle_submission e sub lb imgs y w = ((lb', msgs), w')"
  shows "((\<exists>msg \<in> set msgs. failure_of msg = Some UnsupportedShape) \<longleftrightarrow>
            (length shp \<noteq> 4 \<or> last shp \<noteq> Some 3 \<or> shp ! 1 = None \<or> shp ! 2 = None)) \<and>
         ((\<exists>msg \<in> set msgs. failure_of msg = Some UnsupportedShape) \<longrightarrow>
            evaluations w' = evaluations w \<and> saves w' = saves w \<and> lb' = lb \<and>
            leaderboard_file w' = leaderboard_file w) \<and>
         ((\<forall>msg \<in> set msgs. failure_of msg \<noteq> Some UnsupportedShape) \<longrightarrow>
            evaluations w' = Suc (evaluations w))"
proof -
  have ev: "evaluate_submission e sub lb imgs y m w = ((lb', msgs), w')"
    using handle_submission_loaded[OF assms(1-4), of lb imgs y w] assms(6) by simp
  show ?thesis
  proof (cases "length shp \<noteq> 4 \<or> last shp \<noteq> Some 3 \<or> shp ! 1 = None \<or> shp ! 2 = None")
    case True
    from evaluate_submission_rejected[OF assms(5) True, of e sub lb imgs y w] ev
    obtain msg where "failure_of msg = Some UnsupportedShape" "lb' = lb" "msgs = [msg]" "w' = w"
      by auto
    with True show ?thesis by simp
  next
    case False
    then obtain h wd where hw: "shp ! 1 = Some h" "shp ! 2 = Some wd" by auto
    from False have l: "length shp = 4" "last shp = Some 3" by simp_all
    note acc = evaluate_submission_accepted[OF assms(5) l hw, of e sub lb imgs y w]
    show ?thesis
    proof (cases "evaluate_model e m imgs y (h, wd)")
      case (Inl err)
      with acc ev have "msgs = [Error_evaluation err]" "w' = w\<lparr>evaluations := Suc (evaluations w)\<rparr>"
        by simp_all
      with False show ?thesis by simp
    next
      case (Inr a)
      with acc ev have "msgs = [Success a]" "evaluations w' = Suc (evaluations w)"
        by (auto simp add: record_result_def save_leaderboard_def Let_def)
      with False show ?thesis by simp
    qed
  qed
qed

theorem unsupported_shape_rejection_witness:
  "handle_submission demo_env (demo_submission ''alice'' ''gray'') [] demo_images demo_labels empty_world =
     (([], [Error_unsupported_shape [None, Some 2, Some 2, Some 1]]), empty_world) \<and>
   last [None, Some 2, Some 2, Some (1::nat)] \<noteq> Some 3 \<and>
   (\<exists>msg \<in> set [Error_unsupported_shape [None, Some 2, Some 2, Some 1]].
      failure_of msg = Some UnsupportedShape)"
  using unsupported_shape_rejection[OF gray_facts run_gray[of "[]"]] run_gray[of "[]"]
  by simp

section \<open>The recorded username\<close>

text \<open>
  Claim C10. A username is accepted when it is not empty after stripping white space: the
  submission is then evaluated, and the row that a successful evaluation appends and saves
  records the username as it was entered, white space included. A username that is empty
  after stripping is answered by the missing-username warning alone.
\<close>

theorem username_recorded_verbatim:
  assumes "submit sub" "uploaded_file sub = Some bytes"
    and "load_model e bytes = Inr m" "input_shape m = Inr [b, Some h, Some wd, Some 3]"
    and "evaluate_model e m imgs y (h, wd) = Inr acc"
  shows "(strip (username sub) \<noteq> [] \<longrightarrow>
            (\<exists>r. handle_submission e sub lb imgs y w =
                   ((lb @ [r], [Success acc]),
                    w\<lparr>leaderboard_file := Some (to_csv e (lb @ [r])), saves := Suc (saves w),
                       evaluations := Suc (evaluations w)\<rparr>) \<and>
                 Username r = Str (username sub))) \<and>
         (strip (username sub) = [] \<longrightarrow>
            handle_submission e sub lb imgs y w = ((lb, [Warning_missing_username]), w))"
proof (cases "strip (username sub) = []")
  case True
  with assms(1,2) show ?thesis by (simp add: handle_submission_def)
next
  case False
  let ?r = "\<lparr>Username = Str (username sub), Accuracy = round2 (float_mul acc 100),
             Timestamp = Str (now e)\<rparr>"
  have "evaluate_submission e sub lb imgs y m w =
          record_result e sub lb acc (w\<lparr>evaluations := Suc (evaluations w)\<rparr>)"
    using evaluate_submission_accepted[OF assms(4), of h wd e sub lb imgs y w] assms(5) by simp
  then have "handle_submission e sub lb imgs y w =
          ((lb @ [?r], [Success acc]),
           w\<lparr>leaderboard_file := Some (to_csv e (lb @ [?r])), saves := Suc (saves w),
              evaluations := Suc (evaluations w)\<rparr>)"
    using handle_submission_loaded[OF assms(1,2) False assms(3), of lb imgs y w]
    by (simp add: record_result_def save_leaderboard_def Let_def)
  moreover have "Username ?r = Str (username sub)" by simp
  ultimately show ?thesis using False by blast
qed

section \<open>A successful submission\<close>

lemma square_facts:
  "submit (demo_submission '' alice '' ''square'')"
  "uploaded_file (demo_submission '' alice '' ''square'') = Some ''square''"
  "strip (username (demo_submission '' alice '' ''square'')) \<noteq> []"
  "load_model demo_env ''square'' = Inr (always_zero [None, Some 2, Some 2, Some 3])"
  "input_shape (always_zero [None, Some 2, Some 2, Some 3]) = Inr [None, Some 2, Some 2, Some 3]"
  "evaluate_model demo_env (always_zero [None, Some 2, Some 2, Some 3]) demo_images demo_labels (2, 2) =
     Inr (Finite (fl (1 / 3)))"
  by (simp_all add: demo_submission_def strip_def isspace_def demo_simps)

theorem username_recorded_verbatim_witness:
  "strip (username (demo_submission '' alice '' ''square'')) \<noteq> [] \<and>
   (\<exists>r. handle_submission demo_env (demo_submission '' alice '' ''square'') [] demo_images
          demo_labels empty_world =
          (([] @ [r], [Success (Finite (fl (1 / 3)))]),
           empty_world\<lparr>leaderboard_file := Some (to_csv demo_env ([] @ [r])),
             saves := Suc (saves empty_world), evaluations := Suc (evaluations empty_world)\<rparr>) \<and>
        Username r = Str '' alice '')"
proof -
  have u: "username (demo_submission '' alice '' ''square'') = '' alice ''"
    by (simp add: demo_submission_def)
  from username_recorded_verbatim
    [OF square_facts(1,2,4,5,6), of "[]" empty_world] square_facts(3)
  show ?thesis unfolding u by blast
qed

text \<open>
  Claim C3, as stated, asks for a non-empty username only. A username of two spaces is not
  empty, the model loads and evaluates without exception, and yet the handler shows the
  missing-username warning and appends no row.
\<close>

theorem blank_username_appends_no_row:
  "username (demo_submission ''  '' ''square'') \<noteq> [] \<and>
   load_model demo_env ''square'' = Inr (always_zero [None, Some 2, Some 2, Some 3]) \<and>
   evaluate_model demo_env (always_zero [None, Some 2, Some 2, Some 3]) demo_images demo_labels (2, 2) =
     Inr (Finite (fl (1 / 3))) \<and>
   handle_submission demo_env (demo_submission ''  '' ''square'') [] demo_images demo_labels empty_world =
     (([], [Warning_missing_username]), empty_world)"
  by (simp add: handler_simps demo_simps)

text \<open>
  The claim also takes the accuracy for the exact percentage, rounded. The code computes
  it in floating point: for 23 correct images of 160 the mean is the double nearest to
  0.14375, its product with 100 is 14.374999999999998, and the row stores 14.37, where the
  exact percentage 14.375 rounds to 14.38.
\<close>

lemma accuracy_of_23_in_160:
  "round2 (float_mul (np_mean (replicate 23 True @ replicate 137 False)) 100) = Percent 1437"
proof -
  have "np_mean (replicate 23 True @ replicate 137 False) = Finite (fl (23 / 160))"
    by (simp add: np_mean_def)
  then show ?thesis using round2_23_of_160 by simp
qed

text \<open>
  Claim C3, amended. For every submission with a username that is not empty after
  stripping white space and a model that loads and evaluates without exception, giving one
  row of scores per test image, exactly one row is appended to the leaderboard and saved.
  The accuracy of that row is \<^verbatim>\<open>round(acc * 100, 2)\<close> as floating point computes it, where
  \<^verbatim>\<open>acc\<close> is the number of test images whose predicted class (the first index of the
  maximal score) is their label, divided by the number of test images.
\<close>

theorem successful_submission_appends_one_row:
  assumes "submit sub" "uploaded_file sub = Some bytes" "strip (username sub) \<noteq> []"
    and "load_model e bytes = Inr m" "input_shape m = Inr [b, Some h, Some wd, Some 3]"
    and "resized_imgs e imgs (h, wd) = Inr arrays" "np_stack arrays = Inr x"
    and "predict m x = Inr preds" "length preds = length y"
    and "evaluate_model e m imgs y (h, wd) = Inr acc"
  shows "handle_submission e sub lb imgs y w =
           ((lb @ [\<lparr>Username = Str (username sub),
                     Accuracy = round2 (float_mul (fraction_correct preds y) 100),
                     Timestamp = Str (now e)\<rparr>],
             [Success (fraction_correct preds y)]),
            w\<lparr>leaderboard_file :=
                 Some (to_csv e
                   (lb @ [\<lparr>Username = Str (username sub),
                            Accuracy = round2 (float_mul (fraction_correct preds y) 100),
                            Timestamp = Str (now e)\<rparr>])),
               saves := Suc (saves w), evaluations := Suc (evaluations w)\<rparr>)"
proof -
  have acc: "acc = fraction_correct preds y"
    by (rule evaluate_model_fraction[OF assms(10) assms(6-9)])
  have "evaluate_submission e sub lb imgs y m w =
          record_result e sub lb acc (w\<lparr>evaluations := Suc (evaluations w)\<rparr>)"
    using evaluate_submission_accepted[OF assms(5), of h wd e sub lb imgs y w] assms(10) by simp
  then show ?thesis
    using handle_submission_loaded[OF assms(1-4), of lb imgs y w]
    by (simp add: acc record_result_def save_leaderboard_def Let_def)
qed

lemma square_steps:
  "\<exists>arrays x.
     resized_imgs demo_env demo_images (2, 2) = Inr arrays \<and> np_stack arrays = Inr x \<and>
     predict (always_zero [None, Some 2, Some 2, Some 3]) x = Inr [[1, 0, 0], [1, 0, 0], [1, 0, 0]]"
  by (simp add: demo_simps numeral_3_eq_3)

lemma square_fraction:
  "fraction_correct [[1, 0, 0], [1, 0, 0], [1, 0, 0]] demo_labels = Finite (fl (1 / 3))"
  by (simp add: fraction_correct_def correct_def is_argmax_def demo_labels_def upt_rec)

theorem successful_submission_appends_one_row_witness:
  "handle_submission demo_env (demo_submission '' alice '' ''square'') [] demo_images demo_labels
     empty_world =
     (([] @ [\<lparr>Username = Str (username (demo_submission '' alice '' ''square'')),
               Accuracy = round2 (float_mul
                 (fraction_correct [[1, 0, 0], [1, 0, 0], [1, 0, 0]] demo_labels) 100),
               Timestamp = Str (now demo_env)\<rparr>],
       [Success (fraction_correct [[1, 0, 0], [1, 0, 0], [1, 0, 0]] demo_labels)]),
      empty_world\<lparr>leaderboard_file :=
           Some (to_csv demo_env
             ([] @ [\<lparr>Username = Str (username (demo_submission '' alice '' ''square'')),
                      Accuracy = round2 (float_mul
                        (fraction_correct [[1, 0, 0], [1, 0, 0], [1, 0, 0]] demo_labels) 100),
                      Timestamp = Str (now demo_env)\<rparr>])),
         saves := Suc (saves empty_world), evaluations := Suc (evaluations empty_world)\<rparr>) \<and>
   length [[1, 0, 0], [1, 0, 0], [1 :: rat, 0, 0]] = length demo_labels \<and>
   round2 (float_mul (fraction_correct [[1, 0, 0], [1, 0, 0], [1, 0, 0]] demo_labels) 100) =
     Percent 3333"
proof -
  from square_steps obtain arrays x where
    st: "resized_imgs demo_env demo_images (2, 2) = Inr arrays" "np_stack arrays = Inr x"
        "predict (always_zero [None, Some 2, Some 2, Some 3]) x =
           Inr [[1, 0, 0], [1, 0, 0], [1, 0, 0]]"
    by blast
  have len: "length [[1, 0, 0], [1, 0, 0], [1 :: rat, 0, 0]] = length demo_labels"
    by (simp add: demo_labels_def)
  have r: "round2 (float_mul (fraction_correct [[1, 0, 0], [1, 0, 0], [1, 0, 0]] demo_labels) 100) =
             Percent 3333"
    by (simp only: square_fraction round2_third)
  from successful_submission_appends_one_row
    [OF square_facts(1-5) st len square_facts(6), of "[]" empty_world] len r
  show ?thesis by blast
qed

section \<open>Resizing\<close>

text \<open>
  Claim C1 says that each image is resized to the width and the height the model declares.
  For a model that declares height 64 and width 128 the handler passes the pair
  (64, 128) to \<^verbatim>\<open>Image.resize\<close>, which reads it as (width, height): the resized image is 64
  wide and 128 high, its array has shape (128, 64, 3), and a model that accepts only its
  declared shape fails on the batch.
\<close>

theorem resize_swaps_height_and_width:
  "resized_imgs e [img] (64, 128) =
     Inr [\<lparr>nd_shape = [128, 64, 3],
           nd_data = map (\<lambda>v. of_nat v / 255) (resample e img (64, 128))\<rparr>] \<and>
   (\<exists>r. resize e img (64, 128) = Inr r \<and> img_width r = 64 \<and> img_height r = 128) \<and>
   evaluate_submission e sub lb [img] y
     \<lparr>input_shape = Inr [None, Some 64, Some 128, Some 3],
      predict = (\<lambda>x. if nd_shape x = [1, 64, 128, 3] then Inr [[1, 0, 0]]
                      else Inl ''incompatible shape'')\<rparr> w =
     ((lb, [Error_evaluation ''incompatible shape'']), w\<lparr>evaluations := Suc (evaluations w)\<rparr>)"
  by (simp add: resized_imgs_def resize_def np_array_def evaluate_submission_def evaluate_model_def
        np_stack_def Let_def)

section \<open>Order of the displayed table\<close>

text \<open>
  What the display does guarantee: the rows are those of the table, in descending order of
  the text of their accuracy.
\<close>

lemma display_sorted_as_text:
  "sorted (rev (map (\<lambda>r. fst (snd r)) (sort_values_descending rows))) \<and>
   set (sort_values_descending rows) = set rows \<and>
   length (sort_values_descending rows) = length rows"
  by (simp add: sort_values_descending_def rev_map[symmetric])

text \<open>
  Claim C2 says that the displayed table is sorted by accuracy as a number. The display
  sorts the column after it has been turned into text: a new row with accuracy 100.0 is
  shown below an older row with accuracy 50.0.
\<close>

theorem display_sorts_accuracy_as_text:
  "show_leaderboard
     ([\<lparr>Username = Str ''bob'', Accuracy = Percent 5000, Timestamp = Str ''2024-05-01 12:00:00''\<rparr>] @
      [\<lparr>Username = Str ''alice'', Accuracy = Percent 10000, Timestamp = Str ''2024-05-02 12:00:00''\<rparr>]) =
   Some [(Str ''bob'', ''50.0 %'', Str ''2024-05-01 12:00:00''),
         (Str ''alice'', ''100.0 %'', Str ''2024-05-02 12:00:00'')]"
  by (simp add: show_leaderboard_def sort_values_descending_def leaderboard_display_def str_simps)

section \<open>Round trip of the leaderboard file\<close>

text \<open>
  Where the round trip does hold: a table of plain rows is read back as it was written,
  and writing what was read reproduces the file.
\<close>

lemma split_on_append:
  "c \<notin> set a \<Longrightarrow> split_on c (a @ c # rest) = a # split_on c rest"
  by (induction a) auto

lemma split_on_none: "c \<notin> set a \<Longrightarrow> split_on c a = [a]"
  by (induction a) auto

lemma split_on_lines:
  "(\<forall>l \<in> set ls. c \<notin> set l) \<Longrightarrow> split_on c (concat (map (\<lambda>l. l @ [c]) ls)) = ls @ [[]]"
  by (induction ls) (simp_all add: split_on_append)

lemma digit_char_cases:
  assumes "d < 10"
  shows "digit_char d \<in> set ''0123456789'' \<and> digit_val (digit_char d) = d"
proof -
  from assms have "d \<in> {0, 1, 2, 3, 4, 5, 6, 7, 8, 9}" by auto
  then show ?thesis by (auto simp add: digit_char_def digit_val_def)
qed

lemma digits_are_digits: "c \<in> set ''0123456789'' \<Longrightarrow> is_digit c"
  by (auto simp add: is_digit_def)

lemma is_digit_digit_char: "d < 10 \<Longrightarrow> is_digit (digit_char d)"
  using digit_char_cases digits_are_digits by blast

lemma is_digit_not_special:
  "is_digit c \<Longrightarrow> c \<noteq> CHR '','' \<and> c \<noteq> CHR ''.'' \<and> c \<noteq> quotechar \<and> c \<noteq> newline \<and> c \<noteq> CHR 0x0D"
  by (auto simp add: is_digit_def quotechar_def newline_def)

lemma str_nat_digits: "list_all is_digit (str_nat n)"
proof (induction n rule: str_nat.induct)
  case (1 n)
  show ?case
  proof (cases "n < 10")
    case True
    then show ?thesis by (simp add: str_nat_small is_digit_digit_char)
  next
    case False
    with 1 show ?thesis by (simp add: str_nat_big is_digit_digit_char)
  qed
qed

lemma str_nat_not_Nil: "str_nat n \<noteq> []"
  by (cases "n < 10") (simp_all add: str_nat_small str_nat_big)

lemma nat_of_digits_snoc: "nat_of_digits (ds @ [c]) = 10 * nat_of_digits ds + digit_val c"
  by (simp add: nat_of_digits_def)

lemma nat_of_digits_str_nat: "nat_of_digits (str_nat n) = n"
proof (induction n rule: str_nat.induct)
  case (1 n)
  show ?case
  proof (cases "n < 10")
    case True
    then show ?thesis
      using digit_char_cases[of n] by (simp add: str_nat_small nat_of_digits_def)
  next
    case False
    with 1 have "nat_of_digits (str_nat (n div 10)) = n div 10" by simp
    moreover have "digit_val (digit_char (n mod 10)) = n mod 10"
      using digit_char_cases[of "n mod 10"] by simp
    ultimately show ?thesis using False by (simp add: str_nat_big nat_of_digits_snoc)
  qed
qed

lemma str_float_parts: "str_float k = str_nat (k div 100) @ CHR ''.'' # fraction_digits k"
  by (simp add: str_float_def)

lemma fraction_digits_digits: "list_all is_digit (fraction_digits k)"
  by (simp add: fraction_digits_def is_digit_digit_char)

lemma fraction_digits_value:
  "(if length (fraction_digits k) = 1 then 10 * nat_of_digits (fraction_digits k)
    else nat_of_digits (fraction_digits k)) = k mod 100"
proof -
  have a: "digit_val (digit_char (k mod 100 div 10)) = k mod 100 div 10"
    using digit_char_cases[of "k mod 100 div 10"] by simp
  have b: "digit_val (digit_char (k mod 10)) = k mod 10"
    using digit_char_cases[of "k mod 10"] by simp
  have "k mod 10 = k mod 100 mod 10" by (simp add: mod_mod_cancel)
  then have split: "10 * (k mod 100 div 10) + k mod 10 = k mod 100" by simp
  show ?thesis
  proof (cases "k mod 10 = 0")
    case True
    have "nat_of_digits (fraction_digits k) = k mod 100 div 10"
      using True a by (simp add: fraction_digits_def nat_of_digits_def)
    moreover have "length (fraction_digits k) = 1"
      using True by (simp add: fraction_digits_def)
    ultimately show ?thesis using split True by simp
  next
    case False
    have "nat_of_digits (fraction_digits k) = 10 * (k mod 100 div 10) + k mod 10"
      using False a b by (simp add: fraction_digits_def nat_of_digits_def)
    moreover have "length (fraction_digits k) = 2"
      using False by (simp add: fraction_digits_def)
    ultimately show ?thesis using split by simp
  qed
qed

lemma parse_decimal_str_float: "parse_decimal (str_float k) = Some k"
proof -
  have dot: "CHR ''.'' \<notin> set (str_nat (k div 100))" "CHR ''.'' \<notin> set (fraction_digits k)"
    using str_nat_digits[of "k div 100"] fraction_digits_digits[of k] is_digit_not_special
    by (auto simp add: list_all_iff)
  have sp: "split_on CHR ''.'' (str_float k) = [str_nat (k div 100), fraction_digits k]"
    by (simp add: str_float_parts split_on_append[OF dot(1)] split_on_none[OF dot(2)])
  have len: "length (fraction_digits k) = 1 \<or> length (fraction_digits k) = 2"
    by (simp add: fraction_digits_def)
  have "100 * (k div 100) + k mod 100 = k" by simp
  then show ?thesis
    using len fraction_digits_value[of k]
    by (simp add: parse_decimal_def sp str_nat_not_Nil str_nat_digits fraction_digits_digits
          nat_of_digits_str_nat del: One_nat_def)
qed

lemma na_value_chars:
  "s \<in> set NA_VALUES \<Longrightarrow> s = [] \<or> (\<exists>c \<in> set s. \<not> is_digit c \<and> c \<noteq> CHR ''.'')"
  by (auto simp add: NA_VALUES_def is_digit_def)

lemma str_float_not_na: "str_float k \<notin> set NA_VALUES"
proof
  assume "str_float k \<in> set NA_VALUES"
  then have "str_float k = [] \<or> (\<exists>c \<in> set (str_float k). \<not> is_digit c \<and> c \<noteq> CHR ''.'')"
    by (rule na_value_chars)
  moreover have "str_float k \<noteq> []" by (simp add: str_float_parts)
  moreover have "\<forall>c \<in> set (str_float k). is_digit c \<or> c = CHR ''.''"
    using str_nat_digits[of "k div 100"] fraction_digits_digits[of k]
    by (auto simp add: str_float_parts list_all_iff)
  ultimately show False by blast
qed

lemma parse_accuracy_str_float: "parse_accuracy (str_float k) = Some (Percent k)"
  by (simp add: parse_accuracy_def str_float_not_na parse_decimal_str_float)

lemma str_float_chars:
  "c \<in> set (str_float k) \<Longrightarrow> c \<noteq> CHR '','' \<and> c \<noteq> quotechar \<and> c \<noteq> newline \<and> c \<noteq> CHR 0x0D"
  using str_nat_digits[of "k div 100"] fraction_digits_digits[of k] is_digit_not_special
  by (auto simp add: str_float_parts list_all_iff quotechar_def newline_def)

lemma plain_chars:
  "plain s \<Longrightarrow> CHR '','' \<notin> set s \<and> quotechar \<notin> set s \<and> newline \<notin> set s \<and> CHR 0x0D \<notin> set s"
  by (auto simp add: plain_def needs_quoting_def)

lemma plain_row_fields:
  assumes "plain_row r"
  obtains u k t where "r = \<lparr>Username = Str u, Accuracy = Percent k, Timestamp = Str t\<rparr>"
    "plain u" "plain t"
proof -
  from assms obtain u k t where
    ut: "Username r = Str u" "Accuracy r = Percent k" "Timestamp r = Str t" "plain u" "plain t"
    by (auto simp add: plain_row_def split: cell.splits percent.splits)
  then have "r = \<lparr>Username = Str u, Accuracy = Percent k, Timestamp = Str t\<rparr>" by (cases r) simp
  with ut that show ?thesis by blast
qed

lemma csv_line_plain: "plain_row r \<Longrightarrow> csv_line r = row_text r @ [newline]"
proof -
  assume "plain_row r"
  then obtain u k t where r: "r = \<lparr>Username = Str u, Accuracy = Percent k, Timestamp = Str t\<rparr>"
    and p: "plain u" "plain t" by (rule plain_row_fields)
  from p have "csv_field u = u" "csv_field t = t" by (simp_all add: csv_field_def plain_def)
  then show ?thesis by (simp add: r csv_line_def row_text_def)
qed

lemma row_text_chars: "plain_row r \<Longrightarrow> newline \<notin> set (row_text r) \<and> quotechar \<notin> set (row_text r) \<and> CHR 0x0D \<notin> set (row_text r) \<and> row_text r \<noteq> []"
proof -
  assume "plain_row r"
  then obtain u k t where r: "r = \<lparr>Username = Str u, Accuracy = Percent k, Timestamp = Str t\<rparr>"
    and p: "plain u" "plain t" by (rule plain_row_fields)
  have b: "row_text r = u @ CHR '','' # str_float k @ CHR '','' # t"
    by (simp add: r row_text_def)
  show ?thesis
    using plain_chars[OF p(1)] plain_chars[OF p(2)] str_float_chars[of _ k]
    by (auto simp add: b newline_def quotechar_def)
qed

lemma split_row_text:
  assumes "plain_row r"
  shows "\<exists>u k t. split_on CHR '','' (row_text r) = [u, str_float k, t] \<and>
           r = \<lparr>Username = Str u, Accuracy = Percent k, Timestamp = Str t\<rparr> \<and> plain u \<and> plain t"
proof -
  from assms obtain u k t where r: "r = \<lparr>Username = Str u, Accuracy = Percent k, Timestamp = Str t\<rparr>"
    and p: "plain u" "plain t" by (rule plain_row_fields)
  have b: "row_text r = u @ CHR '','' # str_float k @ CHR '','' # t"
    by (simp add: r row_text_def)
  have c1: "CHR '','' \<notin> set u" and c3: "CHR '','' \<notin> set t"
    using plain_chars[OF p(1)] plain_chars[OF p(2)] by simp_all
  have c2: "CHR '','' \<notin> set (str_float k)"
    using str_float_chars[of "CHR '',''" k] by blast
  have "split_on CHR '','' (row_text r) = [u, str_float k, t]"
    by (simp add: b split_on_append[OF c1] split_on_append[OF c2] split_on_none[OF c3])
  with r p show ?thesis by blast
qed

lemma parse_line_row_text: "plain_row r \<Longrightarrow> parse_line (row_text r) = Inr r"
proof -
  assume pr: "plain_row r"
  from split_row_text[OF pr] obtain u k t where
    sp: "split_on CHR '','' (row_text r) = [u, str_float k, t]"
    and r: "r = \<lparr>Username = Str u, Accuracy = Percent k, Timestamp = Str t\<rparr>"
    and p: "plain u" "plain t" by blast
  have "text_cell u = Str u" "text_cell t = Str t"
    using p by (simp_all add: text_cell_def plain_def)
  then have "parse_line (row_text r) = Inr \<lparr>Username = Str u, Accuracy = Percent k, Timestamp = Str t\<rparr>"
    by (simp add: parse_line_def sp parse_accuracy_str_float)
  with r show ?thesis by simp
qed

lemma map_exn_all: "(\<forall>x \<in> set xs. f x = Inr (g x)) \<Longrightarrow> map_exn f xs = Inr (map g xs)"
  by (induction xs) simp_all

lemma map_exn_row_texts: "list_all plain_row T \<Longrightarrow> map_exn parse_line (map row_text T) = Inr T"
  by (induction T) (simp_all add: parse_line_row_text)

lemma text_column_plain: "(\<forall>s \<in> set tokens. plain s) \<Longrightarrow> text_column tokens"
proof -
  assume a: "\<forall>s \<in> set tokens. plain s"
  then have f: "filter (\<lambda>s. s \<notin> set NA_VALUES) tokens = tokens"
    by (simp add: plain_def filter_id_conv)
  show ?thesis
  proof (cases tokens)
    case Nil
    then show ?thesis by (simp add: text_column_def)
  next
    case (Cons s rest)
    with a have "\<not> may_convert s" by (simp add: plain_def)
    with Cons f show ?thesis unfolding text_column_def Let_def by (metis list.set_intros(1))
  qed
qed

lemma first_and_last_field:
  assumes "plain_row r"
  shows "plain (hd (split_on CHR '','' (row_text r))) \<and> plain (last (split_on CHR '','' (row_text r)))"
  using split_row_text[OF assms] by auto

lemma pandas_to_csv_lines:
  assumes "list_all plain_row T"
  shows "pandas_to_csv T = csv_header @ newline # concat (map (\<lambda>l. l @ [newline]) (map row_text T))"
proof -
  have "map csv_line T = map (\<lambda>l. l @ [newline]) (map row_text T)"
    using assms by (simp add: list_all_iff csv_line_plain)
  then show ?thesis by (simp only: pandas_to_csv_def append_Cons append_Nil)
qed

lemma header_chars:
  "newline \<notin> set csv_header" "quotechar \<notin> set csv_header" "CHR 0x0D \<notin> set csv_header"
  "csv_header \<noteq> []"
  by (simp_all add: csv_header_def newline_def quotechar_def)

lemma read_what_was_written:
  assumes "list_all plain_row T"
  shows "pandas_read_csv (pandas_to_csv T) = Inr T"
proof -
  let ?content = "pandas_to_csv T"
  have bodies: "\<forall>l \<in> set (map row_text T). newline \<notin> set l"
    and bodies': "\<forall>l \<in> set (map row_text T). l \<noteq> []"
    and noq: "\<forall>l \<in> set (map row_text T). quotechar \<notin> set l \<and> CHR 0x0D \<notin> set l"
    using assms row_text_chars by (auto simp add: list_all_iff)
  have c: "?content = csv_header @ newline # concat (map (\<lambda>l. l @ [newline]) (map row_text T))"
    by (rule pandas_to_csv_lines[OF assms])
  have "split_on newline ?content = csv_header # (map row_text T @ [[]])"
    by (simp only: c split_on_append[OF header_chars(1)] split_on_lines[OF bodies])
  moreover have "filter (\<lambda>l. l \<noteq> []) (map row_text T) = map row_text T"
    using bodies' by (simp add: filter_id_conv)
  ultimately have lines: "filter (\<lambda>l. l \<noteq> []) (split_on newline ?content) = csv_header # map row_text T"
    using header_chars(4) by simp
  have q: "quotechar \<notin> set ?content" "CHR 0x0D \<notin> set ?content"
    using noq header_chars(2,3) by (auto simp add: c newline_def quotechar_def)
  have t1: "text_column (map (\<lambda>l. hd (split_on CHR '','' l)) (map row_text T))"
    using assms first_and_last_field by (intro text_column_plain) (auto simp add: list_all_iff)
  have t2: "text_column (map (\<lambda>l. last (split_on CHR '','' l)) (map row_text T))"
    using assms first_and_last_field by (intro text_column_plain) (auto simp add: list_all_iff)
  show ?thesis
    unfolding pandas_read_csv_def
    using q lines t1 t2 map_exn_row_texts[OF assms] by simp
qed

lemma written_file_is_stable:
  assumes "list_all plain_row T" "pandas_read_csv (pandas_to_csv T) = Inr T'"
  shows "pandas_to_csv T' = pandas_to_csv T"
  using read_what_was_written[OF assms(1)] assms(2) by simp

lemma store_round_trip_plain:
  assumes "read_csv e = pandas_read_csv" "to_csv e = pandas_to_csv" "list_all plain_row T"
  shows "load_leaderboard e (save_leaderboard e T w) = Inr T"
  using assms by (simp add: load_leaderboard_def save_leaderboard_def read_what_was_written)

lemma load_without_file: "leaderboard_file w = None \<Longrightarrow> load_leaderboard e w = Inr []"
  by (simp add: load_leaderboard_def)

text \<open>
  Two runs of the script: a user named \<^verbatim>\<open>NA\<close> submits, then a user named \<^verbatim>\<open>bob\<close>. The
  second run reads the first row back without its username and writes it so.
\<close>

lemma run_na:
  "handle_submission demo_env (demo_submission ''NA'' ''square'') [] demo_images demo_labels empty_world =
     (([\<lparr>Username = Str ''NA'', Accuracy = Percent 3333, Timestamp = Str ''2024-05-01 12:00:00''\<rparr>],
       [Success (Finite (fl (1 / 3)))]),
      empty_world\<lparr>leaderboard_file :=
          Some (''Username,Accuracy,Timestamp'' @ [CHR 0x0A] @ ''NA,33.33,2024-05-01 12:00:00'' @ [CHR 0x0A]),
        saves := 1, evaluations := 1\<rparr>)"
  by (simp add: handler_simps demo_simps csv_simps)

lemma load_na:
  "load_leaderboard demo_env
     (empty_world\<lparr>leaderboard_file :=
          Some (''Username,Accuracy,Timestamp'' @ [CHR 0x0A] @ ''NA,33.33,2024-05-01 12:00:00'' @ [CHR 0x0A]),
        saves := 1, evaluations := 1\<rparr>) =
     Inr [\<lparr>Username = NaN, Accuracy = Percent 3333, Timestamp = Str ''2024-05-01 12:00:00''\<rparr>]"
  by (simp add: load_leaderboard_def demo_env_def empty_world_def read_simps)

lemma run_bob:
  "handle_submission demo_env (demo_submission ''bob'' ''square'')
     [\<lparr>Username = NaN, Accuracy = Percent 3333, Timestamp = Str ''2024-05-01 12:00:00''\<rparr>]
     demo_images demo_labels
     (empty_world\<lparr>leaderboard_file :=
          Some (''Username,Accuracy,Timestamp'' @ [CHR 0x0A] @ ''NA,33.33,2024-05-01 12:00:00'' @ [CHR 0x0A]),
        saves := 1, evaluations := 1\<rparr>) =
     (([\<lparr>Username = NaN, Accuracy = Percent 3333, Timestamp = Str ''2024-05-01 12:00:00''\<rparr>,
        \<lparr>Username = Str ''bob'', Accuracy = Percent 3333, Timestamp = Str ''2024-05-01 12:00:00''\<rparr>],
       [Success (Finite (fl (1 / 3)))]),
      empty_world\<lparr>leaderboard_file :=
          Some (''Username,Accuracy,Timestamp'' @ [CHR 0x0A] @ '',33.33,2024-05-01 12:00:00'' @ [CHR 0x0A] @
                ''bob,33.33,2024-05-01 12:00:00'' @ [CHR 0x0A]),
        saves := 2, evaluations := 2\<rparr>)"
  by (simp add: handler_simps demo_simps csv_simps)

lemma app_na_first:
  "app demo_env (demo_submission ''NA'' ''square'') empty_world =
     Inr (([Success (Finite (fl (1 / 3)))], Some [(Str ''NA'', ''33.33 %'', Str ''2024-05-01 12:00:00'')]),
          empty_world\<lparr>leaderboard_file :=
              Some (''Username,Accuracy,Timestamp'' @ [CHR 0x0A] @ ''NA,33.33,2024-05-01 12:00:00'' @ [CHR 0x0A]),
            saves := 1, evaluations := 1\<rparr>)"
proof -
  have l: "load_leaderboard demo_env empty_world = Inr []"
    by (simp add: load_leaderboard_def empty_world_def)
  show ?thesis
    by (simp add: app_def l demo_load run_na show_leaderboard_def sort_values_descending_def
          leaderboard_display_def str_simps)
qed

lemma app_na_second:
  "app demo_env (demo_submission ''bob'' ''square'')
     (empty_world\<lparr>leaderboard_file :=
              Some (''Username,Accuracy,Timestamp'' @ [CHR 0x0A] @ ''NA,33.33,2024-05-01 12:00:00'' @ [CHR 0x0A]),
            saves := 1, evaluations := 1\<rparr>) =
     Inr (([Success (Finite (fl (1 / 3)))],
           Some [(NaN, ''33.33 %'', Str ''2024-05-01 12:00:00''),
                 (Str ''bob'', ''33.33 %'', Str ''2024-05-01 12:00:00'')]),
          empty_world\<lparr>leaderboard_file :=
              Some (''Username,Accuracy,Timestamp'' @ [CHR 0x0A] @ '',33.33,2024-05-01 12:00:00'' @ [CHR 0x0A] @
                    ''bob,33.33,2024-05-01 12:00:00'' @ [CHR 0x0A]),
            saves := 2, evaluations := 2\<rparr>)"
  by (simp add: app_def load_na[simplified] demo_load run_bob[simplified] show_leaderboard_def
        sort_values_descending_def leaderboard_display_def str_simps)

text \<open>
  Claim C6 says that saving and loading are inverse to each other. A row whose username is
  \<^verbatim>\<open>NA\<close> is saved as the field \<^verbatim>\<open>NA\<close>, which is read back as the missing value and saved
  again as the empty field: neither the table nor the file survives the round trip.
\<close>

theorem na_username_does_not_round_trip:
  "leaderboard_file (save_leaderboard demo_env
      [\<lparr>Username = Str ''NA'', Accuracy = Percent 5000, Timestamp = Str ''2024-05-01 12:00:00''\<rparr>] empty_world) =
     Some (''Username,Accuracy,Timestamp'' @ [CHR 0x0A] @ ''NA,50.0,2024-05-01 12:00:00'' @ [CHR 0x0A]) \<and>
   load_leaderboard demo_env (save_leaderboard demo_env
      [\<lparr>Username = Str ''NA'', Accuracy = Percent 5000, Timestamp = Str ''2024-05-01 12:00:00''\<rparr>] empty_world) =
     Inr [\<lparr>Username = NaN, Accuracy = Percent 5000, Timestamp = Str ''2024-05-01 12:00:00''\<rparr>] \<and>
   leaderboard_file (save_leaderboard demo_env
      [\<lparr>Username = NaN, Accuracy = Percent 5000, Timestamp = Str ''2024-05-01 12:00:00''\<rparr>]
      (save_leaderboard demo_env
        [\<lparr>Username = Str ''NA'', Accuracy = Percent 5000, Timestamp = Str ''2024-05-01 12:00:00''\<rparr>] empty_world)) =
     Some (''Username,Accuracy,Timestamp'' @ [CHR 0x0A] @ '',50.0,2024-05-01 12:00:00'' @ [CHR 0x0A])"
  by (simp add: save_leaderboard_def load_leaderboard_def demo_env_def empty_world_def csv_simps read_simps)

end
